theory Spec2Isabelle
  imports Main
begin

section \<open>Python strings\<close>

text \<open>
  A Python \<open>str\<close> is a sequence of Unicode code points, and \<open>len\<close> and slicing count
  code points. A string is therefore a list of code points, each a natural number;
  \<open>ustr\<close> turns an ASCII literal into such a list.
\<close>

type_synonym codepoint = nat
type_synonym pystr = "codepoint list"

definition ustr :: "string \<Rightarrow> pystr" where
  "ustr = map of_char"

definition slash :: codepoint where "slash = 47"
definition backslash :: codepoint where "backslash = 92"
definition underscore :: codepoint where "underscore = 95"
definition dot :: codepoint where "dot = 46"
definition hyphen :: codepoint where "hyphen = 45"
definition backtick :: codepoint where "backtick = 96"
definition newline :: codepoint where "newline = 10"

text \<open>The characters \<open>0-9\<close>, \<open>A-Z\<close> and \<open>a-z\<close>.\<close>

definition ascii_alnum :: "codepoint \<Rightarrow> bool" where
  "ascii_alnum c = ((48 \<le> c \<and> c \<le> 57) \<or> (65 \<le> c \<and> c \<le> 90) \<or> (97 \<le> c \<and> c \<le> 122))"

text \<open>
  The class \<open>\w\<close> of module \<open>re\<close> on a \<open>str\<close> pattern without the \<open>ASCII\<close> flag:
  the underscore and every code point that \<open>str.isalnum\<close> accepts. Below 128 these are
  exactly \<open>[A-Za-z0-9_]\<close>; from 128 on the answer is read from the Unicode character
  database, which is the parameter \<open>uni_alnum\<close>.
\<close>

definition re_word :: "(codepoint \<Rightarrow> bool) \<Rightarrow> codepoint \<Rightarrow> bool" where
  "re_word uni_alnum c = (if c < 128 then ascii_alnum c \<or> c = underscore else uni_alnum c)"

text \<open>
  The class of \<open>str.isspace\<close>, which is also \<open>\s\<close> of module \<open>re\<close> and what
  \<open>str.strip()\<close> removes.
\<close>

definition is_space :: "codepoint \<Rightarrow> bool" where
  "is_space c = ((9 \<le> c \<and> c \<le> 13) \<or> (28 \<le> c \<and> c \<le> 32) \<or> c = 133 \<or> c = 160 \<or> c = 5760
      \<or> (8192 \<le> c \<and> c \<le> 8202) \<or> c = 8232 \<or> c = 8233 \<or> c = 8239 \<or> c = 8287 \<or> c = 12288)"

section \<open>\<open>CommandExecutor.sanitize_filename\<close>\<close>

text \<open>
  \<open>os.path.basename\<close> of \<open>posixpath\<close>: \<open>i = p.rfind('/') + 1; return p[i:]\<close>, the part after
  the last slash (the whole string when there is none).
\<close>

definition basename :: "pystr \<Rightarrow> pystr" where
  "basename p = rev (takeWhile (\<lambda>c. c \<noteq> slash) (rev p))"

text \<open>
  \<^verbatim>\<open>
  base_name = os.path.basename(filename)
  safe_name = re.sub(r'[^\w\.\-_]', '_', base_name)
  return safe_name[:100]
  \<close>
  The substitution replaces each single character outside the class by an underscore.
\<close>

definition sanitize_filename :: "(codepoint \<Rightarrow> bool) \<Rightarrow> pystr \<Rightarrow> pystr" where
  "sanitize_filename uni_alnum filename =
     (let base_name = basename filename;
          safe_name = map (\<lambda>c. if re_word uni_alnum c \<or> c = dot \<or> c = hyphen \<or> c = underscore
                                then c else underscore) base_name
      in take 100 safe_name)"

text \<open>The character set the specification names for a sanitized name: \<open>[A-Za-z0-9._-]\<close>.\<close>

definition spec_filename_char :: "codepoint \<Rightarrow> bool" where
  "spec_filename_char c = (ascii_alnum c \<or> c = dot \<or> c = underscore \<or> c = hyphen)"

text \<open>
  What \<open>str.isalnum\<close> answers on the Latin-1 Supplement block (128 to 255): the letters,
  the superscript digits and the vulgar fractions. The concrete inputs evaluated below
  use no code point beyond 255.
\<close>

definition latin1_alnum :: "codepoint \<Rightarrow> bool" where
  "latin1_alnum c = (c \<in> {170, 178, 179, 181, 185, 186, 188, 189, 190}
      \<or> (192 \<le> c \<and> c \<le> 214) \<or> (216 \<le> c \<and> c \<le> 246) \<or> (248 \<le> c \<and> c \<le> 255))"

section \<open>The regular expressions of the deny list\<close>

text \<open>
  Every pattern of \<open>validate_command\<close> is a sequence of single-character classes, each
  with a repetition count: a literal character, \<open>\s\<close>, \<open>[0-7]\<close> or \<open>.\<close>, taken once, or
  under \<open>+\<close>, \<open>*\<close> or \<open>{3,4}\<close>. The patterns are compiled with \<open>re.IGNORECASE\<close>.
\<close>

datatype cls = Lit codepoint | Space | Oct | Dot

definition ascii_lower :: "codepoint \<Rightarrow> codepoint" where
  "ascii_lower c = (if 65 \<le> c \<and> c \<le> 90 then c + 32 else c)"

text \<open>
  A literal ASCII character \<open>c\<close> of a pattern against a character \<open>x\<close> of the subject
  under \<open>re.IGNORECASE\<close>: the two cases of an ASCII letter, and the non-ASCII characters
  whose case folding is an ASCII letter (the Kelvin sign for \<open>k\<close>, the long s for \<open>s\<close>,
  the dotted capital and the dotless small i for \<open>i\<close>).
\<close>

definition ci_eq :: "codepoint \<Rightarrow> codepoint \<Rightarrow> bool" where
  "ci_eq c x = (let p = ascii_lower c in
      ascii_lower x = p \<or> (p = 107 \<and> x = 8490) \<or> (p = 115 \<and> x = 383)
      \<or> (p = 105 \<and> (x = 304 \<or> x = 305)))"

fun cls_match :: "cls \<Rightarrow> codepoint \<Rightarrow> bool" where
  "cls_match (Lit c) x = ci_eq c x"
| "cls_match Space x = is_space x"
| "cls_match Oct x = (48 \<le> x \<and> x \<le> 55)"
| "cls_match Dot x = (x \<noteq> newline)"

text \<open>\<open>Rep c lo hi\<close>: at least \<open>lo\<close> and, when \<open>hi\<close> is given, at most \<open>hi\<close> characters of \<open>c\<close>.\<close>

datatype item = Rep cls nat "nat option"

type_synonym pattern = "item list"

definition once :: "cls \<Rightarrow> item" where "once c = Rep c 1 (Some 1)"
definition one_or_more :: "cls \<Rightarrow> item" where "one_or_more c = Rep c 1 None"
definition zero_or_more :: "cls \<Rightarrow> item" where "zero_or_more c = Rep c 0 None"

definition lits :: "string \<Rightarrow> pattern" where
  "lits s = map (\<lambda>ch. once (Lit (of_char ch))) s"

text \<open>
  \<open>match_here p s\<close>: the pattern matches at the start of \<open>s\<close>. A repetition first tries
  to take one more character and then to stop, as the greedy matcher of \<open>re\<close> does.
\<close>

fun match_here :: "pattern \<Rightarrow> pystr \<Rightarrow> bool" where
  "match_here [] s = True"
| "match_here (Rep c lo hi # items) [] = (if lo = 0 then match_here items [] else False)"
| "match_here (Rep c lo hi # items) (x # xs) =
     (if hi \<noteq> Some 0 \<and> cls_match c x then
        (if match_here (Rep c (lo - 1) (map_option (\<lambda>h. h - 1) hi) # items) xs then True
         else if lo = 0 then match_here items (x # xs) else False)
      else if lo = 0 then match_here items (x # xs) else False)"

text \<open>\<open>re.search\<close>: the pattern matches at some position of the subject.\<close>

fun re_search :: "pattern \<Rightarrow> pystr \<Rightarrow> bool" where
  "re_search p [] = match_here p []"
| "re_search p (x # xs) = (if match_here p (x # xs) then True else re_search p xs)"

text \<open>
  The meaning of a pattern as a set of strings, and what it is for a pattern to match
  somewhere in a subject: some substring of the subject is in that set.
\<close>

fun item_lang :: "item \<Rightarrow> pystr set" where
  "item_lang (Rep c lo hi) =
     {w. list_all (cls_match c) w \<and> lo \<le> length w
         \<and> (case hi of None \<Rightarrow> True | Some h \<Rightarrow> length w \<le> h)}"

fun pattern_lang :: "pattern \<Rightarrow> pystr set" where
  "pattern_lang [] = {[]}"
| "pattern_lang (i # items) = {u @ v | u v. u \<in> item_lang i \<and> v \<in> pattern_lang items}"

definition occurs_in :: "pattern \<Rightarrow> pystr \<Rightarrow> bool" where
  "occurs_in p s = (\<exists>u w v. s = u @ w @ v \<and> w \<in> pattern_lang p)"

text \<open>A prefix of the subject is in the set.\<close>

definition prefix_in :: "pattern \<Rightarrow> pystr \<Rightarrow> bool" where
  "prefix_in p s = (\<exists>w v. s = w @ v \<and> w \<in> pattern_lang p)"

section \<open>\<open>CommandExecutor.validate_command\<close>\<close>

text \<open>
  \<^verbatim>\<open>
  dangerous_patterns = [
      r'rm\s+-rf', r':\(\)\{', r'chmod\s+[0-7]{3,4}\s+',
      r'wget\s+.*\|', r'curl\s+.*\|', r'mkfs', r'dd\s+.*=',
      r'>/dev/sd', r'mount\s+', r'umount\s+'
  ]
  \<close>
\<close>

definition dangerous_patterns :: "pattern list" where
  "dangerous_patterns =
     [lits ''rm'' @ [one_or_more Space] @ lits ''-rf'',
      lits '':(){'',
      lits ''chmod'' @ [one_or_more Space, Rep Oct 3 (Some 4), one_or_more Space],
      lits ''wget'' @ [one_or_more Space, zero_or_more Dot] @ lits ''|'',
      lits ''curl'' @ [one_or_more Space, zero_or_more Dot] @ lits ''|'',
      lits ''mkfs'',
      lits ''dd'' @ [one_or_more Space, zero_or_more Dot] @ lits ''='',
      lits ''>/dev/sd'',
      lits ''mount'' @ [one_or_more Space],
      lits ''umount'' @ [one_or_more Space]]"

text \<open>
  \<^verbatim>\<open>
  for pattern in dangerous_patterns:
      if re.search(pattern, command, re.IGNORECASE):
          return False
  return True
  \<close>
\<close>

fun validate_loop :: "pattern list \<Rightarrow> pystr \<Rightarrow> bool" where
  "validate_loop [] command = True"
| "validate_loop (pattern # rest) command =
     (if re_search pattern command then False else validate_loop rest command)"

definition validate_command :: "pystr \<Rightarrow> bool" where
  "validate_command command = validate_loop dangerous_patterns command"

section \<open>Decoded payloads, exceptions and Python's dynamic operations\<close>

text \<open>
  What \<open>json.loads\<close> returns. An object is an association list read with \<open>map_of\<close>.
  \<open>JFloat m e\<close> is the finite float \<open>m * 2^e\<close>; only its truth value is ever used.
\<close>

datatype json =
    JNull
  | JBool bool
  | JInt int
  | JFloat int int
  | JStr pystr
  | JArr "json list"
  | JObj "(pystr \<times> json) list"

text \<open>
  The exceptions the code can meet, each with the text of \<open>str(e)\<close>. All of them are
  subclasses of \<open>Exception\<close>; \<open>TimeoutExpired\<close> and \<open>JSONDecodeError\<close> have handlers of
  their own.
\<close>

datatype exn =
    TimeoutExpired pystr
  | JSONDecodeError pystr
  | TypeError pystr
  | AttributeError pystr
  | KeyError pystr
  | OtherError pystr

fun exn_str :: "exn \<Rightarrow> pystr" where
  "exn_str (TimeoutExpired m) = m"
| "exn_str (JSONDecodeError m) = m"
| "exn_str (TypeError m) = m"
| "exn_str (AttributeError m) = m"
| "exn_str (KeyError m) = m"
| "exn_str (OtherError m) = m"

text \<open>Sequencing of statements that may raise: the first exception ends the block.\<close>

definition ebind :: "exn + 'a \<Rightarrow> ('a \<Rightarrow> exn + 'b) \<Rightarrow> exn + 'b" where
  "ebind m f = (case m of Inl e \<Rightarrow> Inl e | Inr x \<Rightarrow> f x)"

text \<open>Python's truth value of a decoded value (\<open>if x\<close>, \<open>not x\<close>, \<open>x or y\<close>).\<close>

fun truthy :: "json \<Rightarrow> bool" where
  "truthy JNull = False"
| "truthy (JBool b) = b"
| "truthy (JInt i) = (i \<noteq> 0)"
| "truthy (JFloat m e) = (m \<noteq> 0)"
| "truthy (JStr s) = (s \<noteq> [])"
| "truthy (JArr xs) = (xs \<noteq> [])"
| "truthy (JObj kvs) = (kvs \<noteq> [])"

text \<open>\<open>k in s\<close> on two strings: \<open>k\<close> is a substring of \<open>s\<close>.\<close>

fun substring :: "pystr \<Rightarrow> pystr \<Rightarrow> bool" where
  "substring k [] = (k = [])"
| "substring k (x # xs) = (if take (length k) (x # xs) = k then True else substring k xs)"

text \<open>
  \<open>field in data\<close> with a string \<open>field\<close>: key membership on a dict, element
  membership on a list, the substring test on a string, \<open>TypeError\<close> on anything else.
\<close>

fun py_contains :: "json \<Rightarrow> pystr \<Rightarrow> exn + bool" where
  "py_contains (JObj kvs) k = Inr (map_of kvs k \<noteq> None)"
| "py_contains (JArr xs) k = Inr (JStr k \<in> set xs)"
| "py_contains (JStr s) k = Inr (substring k s)"
| "py_contains v k = Inl (TypeError (ustr ''argument is not iterable''))"

text \<open>\<open>data[key]\<close> with a string key: only a dict can be indexed by a string.\<close>

fun py_getitem :: "json \<Rightarrow> pystr \<Rightarrow> exn + json" where
  "py_getitem (JObj kvs) k = (case map_of kvs k of None \<Rightarrow> Inl (KeyError k) | Some v \<Rightarrow> Inr v)"
| "py_getitem v k = Inl (TypeError (ustr ''indices must be integers''))"

text \<open>\<open>data.get(key, default)\<close>: a method of dicts only.\<close>

fun py_get :: "json \<Rightarrow> pystr \<Rightarrow> json \<Rightarrow> exn + json" where
  "py_get (JObj kvs) k d = Inr (case map_of kvs k of None \<Rightarrow> d | Some v \<Rightarrow> v)"
| "py_get v k d = Inl (AttributeError (ustr ''object has no attribute get''))"

text \<open>
  A value on which a \<open>str\<close> method is called (\<open>.strip\<close>): every other type of value
  raises \<open>AttributeError\<close>.
\<close>

fun str_method :: "json \<Rightarrow> exn + pystr" where
  "str_method (JStr s) = Inr s"
| "str_method v = Inl (AttributeError (ustr ''object has no attribute strip''))"

text \<open>A value handed to \<open>os.path.basename\<close>: anything but a string raises \<open>TypeError\<close>.\<close>

fun fspath :: "json \<Rightarrow> exn + pystr" where
  "fspath (JStr s) = Inr s"
| "fspath v = Inl (TypeError (ustr ''expected str, bytes or os.PathLike object''))"

text \<open>\<open>s.strip()\<close> and \<open>s.strip("`")\<close>.\<close>

definition py_strip :: "pystr \<Rightarrow> pystr" where
  "py_strip s = rev (dropWhile is_space (rev (dropWhile is_space s)))"

definition strip_backticks :: "pystr \<Rightarrow> pystr" where
  "strip_backticks s =
     rev (dropWhile (\<lambda>c. c = backtick) (rev (dropWhile (\<lambda>c. c = backtick) s)))"

section \<open>\<open>AICyberSecurityAssistant.clean_ai_response\<close>\<close>

text \<open>
  \<^verbatim>\<open>re.sub(r"^```(?:json)?|```$", "", s, flags=re.MULTILINE)\<close>, scanning \<open>s\<close> from
  the left; \<open>bol\<close> says that the position is at the start of a line. Three backticks at
  the start of a line are removed together with a following \<open>json\<close>; three backticks
  at the end of a line are removed; any other character is kept.
\<close>

fun strip_fences :: "bool \<Rightarrow> pystr \<Rightarrow> pystr" where
  "strip_fences bol (a # b # c # rest) =
     (if a = backtick \<and> b = backtick \<and> c = backtick \<and> bol then
        (if take 4 rest = ustr ''json'' then strip_fences False (drop 4 rest)
         else strip_fences False rest)
      else if a = backtick \<and> b = backtick \<and> c = backtick
              \<and> (rest = [] \<or> hd rest = newline) then strip_fences False rest
      else a # strip_fences (a = newline) (b # c # rest))"
| "strip_fences bol s = s"

text \<open>
  \<^verbatim>\<open>
  if not raw:
      return ""
  return re.sub(r"^```(?:json)?|```$", "", raw.strip(), flags=re.MULTILINE).strip()
  \<close>
\<close>

definition clean_ai_response :: "pystr \<Rightarrow> pystr" where
  "clean_ai_response raw =
     (if raw = [] then [] else py_strip (strip_fences True (py_strip raw)))"

section \<open>The world outside: files, processes, the oracle\<close>

text \<open>
  A process launch asked of the operating system: \<open>subprocess.Popen\<close> with an argument
  vector, or \<open>subprocess.run(..., shell=True)\<close> with a command line, each with its
  working directory.
\<close>

datatype proc = Exec "pystr list" "pystr option" | Shell json "pystr option"

text \<open>
  The state the program changes: the content of the files it opens, the files it has
  made executable, every launch it has asked for (\<open>spawned\<close>), the children it has left
  alive (\<open>running\<close>), the lines logged at level \<open>error\<close> by \<open>run_command\<close>, and the
  prompts sent to the oracle. \<open>files\<close> is the content of every file there is; \<open>executable\<close>,
  \<open>spawned\<close> and \<open>error_log\<close> record what the program itself has done. A spawned program
  is an arbitrary program chosen by the oracle: it may create, rewrite or delete any
  file, the file its output is redirected to included.
\<close>

record world =
  files :: "pystr \<rightharpoonup> pystr"
  executable :: "pystr set"
  spawned :: "proc list"
  running :: "proc list"
  error_log :: "pystr list"
  prompts :: "pystr list"

text \<open>
  What a child started by \<open>Popen\<close> does: the launch raises; or the child runs and exits
  with a status within the 300 seconds of \<open>process.wait\<close>; or it is still running when
  they are over, and \<open>wait\<close> raises \<open>TimeoutExpired\<close>. \<open>Exits\<close> and \<open>Hangs\<close> carry the files
  as the child has left them when \<open>wait\<close> returns or raises: whatever the child has
  written to its redirected output, and whatever else it has done to any file.
\<close>

datatype child = SpawnError exn | Exits "pystr \<rightharpoonup> pystr" int | Hangs "pystr \<rightharpoonup> pystr"

text \<open>The \<open>CompletedProcess\<close> of \<open>subprocess.run\<close>: return code, \<open>stdout\<close>, \<open>stderr\<close>.\<close>

datatype completed = Completed int pystr pystr

text \<open>
  Everything the code asks of its libraries and of the outside world, as parameters:
  the Unicode tables, \<open>json.loads\<close>, the knowledge base lookup, \<open>shlex.split\<close>,
  \<open>open(path, 'w')\<close> (\<open>None\<close> when the file opens), \<open>Popen\<close> followed by \<open>wait\<close> (given
  the argument vector, the path of the file that receives the output, and the working
  directory), \<open>subprocess.run\<close> with its 60 seconds, the files as the pipeline of
  \<open>subprocess.run\<close> leaves them (\<open>shell_files\<close>), and the oracle's \<open>chat\<close> (\<open>None\<close> when it
  has no reply). Those that depend on the moment take the current state.
\<close>

record env =
  uni_alnum :: "codepoint \<Rightarrow> bool"
  str_lower :: "pystr \<Rightarrow> pystr"
  json_loads :: "pystr \<Rightarrow> exn + json"
  get_knowledge :: "json \<Rightarrow> exn + json"
  shlex_split :: "pystr \<Rightarrow> exn + pystr list"
  open_w :: "world \<Rightarrow> pystr \<Rightarrow> exn option"
  popen :: "world \<Rightarrow> pystr list \<Rightarrow> pystr \<Rightarrow> pystr option \<Rightarrow> child"
  subprocess_run :: "world \<Rightarrow> json \<Rightarrow> pystr option \<Rightarrow> exn + completed"
  shell_files :: "world \<Rightarrow> json \<Rightarrow> pystr option \<Rightarrow> (pystr \<rightharpoonup> pystr)"
  chat :: "world \<Rightarrow> pystr \<Rightarrow> pystr option"

section \<open>\<open>AICyberSecurityAssistant.validate_response\<close>\<close>

definition required_fields :: "pystr list" where
  "required_fields = [ustr ''type'', ustr ''content'', ustr ''reason'', ustr ''continue'']"

text \<open>
  \<^verbatim>\<open>
  for field in required:
      if field not in data:
          return False
  \<close>
  \<open>Inr True\<close> when the loop ends without returning.
\<close>

fun check_required :: "pystr list \<Rightarrow> json \<Rightarrow> exn + bool" where
  "check_required [] data = Inr True"
| "check_required (field # rest) data =
     ebind (py_contains data field) (\<lambda>present.
       if \<not> present then Inr False else check_required rest data)"

text \<open>
  \<^verbatim>\<open>
  if "script_type" not in data or data["script_type"] not in ["bash", "python"]:
      return False
  if "script_name" not in data:
      return False
  \<close>
\<close>

definition check_script_fields :: "json \<Rightarrow> exn + bool" where
  "check_script_fields data =
     ebind (py_contains data (ustr ''script_type'')) (\<lambda>has_type.
       if \<not> has_type then Inr False
       else ebind (py_getitem data (ustr ''script_type'')) (\<lambda>script_type.
         if script_type \<noteq> JStr (ustr ''bash'') \<and> script_type \<noteq> JStr (ustr ''python'')
         then Inr False
         else ebind (py_contains data (ustr ''script_name'')) (\<lambda>has_name.
           if \<not> has_name then Inr False else Inr True)))"

text \<open>
  \<^verbatim>\<open>
  if "knowledge_ref" in data and data["knowledge_ref"]:
      knowledge = knowledge_base_handler.get_knowledge(data["knowledge_ref"])
      if not knowledge:
          logger.warning(...)
  \<close>
  The lookup only warns; an exception it raises still leaves the block.
\<close>

definition check_knowledge_ref :: "env \<Rightarrow> json \<Rightarrow> exn + unit" where
  "check_knowledge_ref e data =
     ebind (py_contains data (ustr ''knowledge_ref'')) (\<lambda>has_ref.
       if \<not> has_ref then Inr ()
       else ebind (py_getitem data (ustr ''knowledge_ref'')) (\<lambda>ref.
         if \<not> truthy ref then Inr ()
         else ebind (get_knowledge e ref) (\<lambda>knowledge. Inr ())))"

text \<open>The body of the \<open>try\<close> block of \<open>validate_response\<close>.\<close>

definition validate_response_try :: "env \<Rightarrow> pystr \<Rightarrow> exn + bool" where
  "validate_response_try e response =
     (let cleaned = clean_ai_response response in
      ebind (json_loads e cleaned) (\<lambda>data.
      ebind (check_required required_fields data) (\<lambda>all_present.
        if \<not> all_present then Inr False
        else ebind (py_getitem data (ustr ''type'')) (\<lambda>ty.
          if ty \<noteq> JStr (ustr ''command'') \<and> ty \<noteq> JStr (ustr ''script'') then Inr False
          else ebind (if ty = JStr (ustr ''script'') then check_script_fields data
                      else Inr True) (\<lambda>script_ok.
            if \<not> script_ok then Inr False
            else ebind (check_knowledge_ref e data) (\<lambda>u. Inr True))))))"

text \<open>Both handlers, \<open>except json.JSONDecodeError\<close> and \<open>except Exception\<close>, return \<open>False\<close>.\<close>

definition validate_response :: "env \<Rightarrow> pystr \<Rightarrow> bool" where
  "validate_response e response =
     (case validate_response_try e response of
        Inr ok \<Rightarrow> ok
      | Inl (JSONDecodeError m) \<Rightarrow> False
      | Inl other \<Rightarrow> False)"

section \<open>\<open>CommandExecutor.run_command\<close>\<close>

definition log_error :: "pystr \<Rightarrow> world \<Rightarrow> world" where
  "log_error line w = w\<lparr>error_log := error_log w @ [line]\<rparr>"

text \<open>
  The two handlers of \<open>run_command\<close>:
  \<^verbatim>\<open>
  except subprocess.TimeoutExpired:
      logger.error(f"Command timed out: {command}")
      return False
  except Exception as e:
      logger.error(f"Error executing command {command}: {e}")
      return False
  \<close>
\<close>

definition run_command_except :: "pystr \<Rightarrow> exn \<Rightarrow> world \<Rightarrow> bool \<times> world" where
  "run_command_except command ex w =
     (case ex of
        TimeoutExpired m \<Rightarrow> (False, log_error (ustr ''Command timed out: '' @ command) w)
      | other \<Rightarrow>
          (False, log_error (ustr ''Error executing command '' @ command @ ustr '': ''
                             @ exn_str other) w))"

text \<open>
  \<^verbatim>\<open>
  try:
      if not CommandExecutor.validate_command(command):
          logger.error(f"Potentially dangerous command blocked: {command}")
          return False
      with open(output_path, 'w') as outfile:
          process = subprocess.Popen(shlex.split(command), stdout=outfile,
                                     stderr=subprocess.STDOUT, text=True, cwd=cwd)
          process.wait(timeout=300)
      return True
  \<close>
  Opening the file for writing creates it empty or truncates it. The arguments of
  \<open>Popen\<close> are evaluated inside the \<open>with\<close> block, so \<open>shlex.split\<close> runs after the file
  is opened. The child is started in the state in which the file has just been
  truncated, and the files after the call are those the child leaves. \<open>wait\<close> with a
  timeout raises and leaves the child as it is: the code has no \<open>kill\<close> or \<open>terminate\<close>, so
  a child that has not exited stays in \<open>running\<close>.
\<close>

definition run_command :: "env \<Rightarrow> pystr \<Rightarrow> pystr \<Rightarrow> pystr option \<Rightarrow> world \<Rightarrow> bool \<times> world" where
  "run_command e command output_path cwd w =
     (if \<not> validate_command command then
        (False, log_error (ustr ''Potentially dangerous command blocked: '' @ command) w)
      else case open_w e w output_path of
        Some ex \<Rightarrow> run_command_except command ex w
      | None \<Rightarrow>
          (let w1 = w\<lparr>files := (files w)(output_path \<mapsto> [])\<rparr> in
           case shlex_split e command of
             Inl ex \<Rightarrow> run_command_except command ex w1
           | Inr argv \<Rightarrow>
               (let w2 = w1\<lparr>spawned := spawned w1 @ [Exec argv cwd]\<rparr> in
                case popen e w1 argv output_path cwd of
                  SpawnError ex \<Rightarrow> run_command_except command ex w2
                | Exits left status \<Rightarrow> (True, w2\<lparr>files := left\<rparr>)
                | Hangs left \<Rightarrow>
                    run_command_except command (TimeoutExpired (ustr ''timed out after 300 seconds''))
                      (w2\<lparr>files := left, running := running w2 @ [Exec argv cwd]\<rparr>))))"

section \<open>\<open>CommandExecutor.filter_output\<close>\<close>

text \<open>
  \<^verbatim>\<open>
  try:
      result = subprocess.run(filter_command, shell=True, capture_output=True,
                              text=True, cwd=working_dir, timeout=60)
      return result.stdout if result.returncode == 0 else f"Filter error: {result.stderr}"
  except subprocess.TimeoutExpired:
      return "Filter command timed out"
  except Exception as e:
      return f"Filter error: {e}"
  \<close>
  The result is \<open>Inr\<close> of the returned string; \<open>Inl\<close> would be an exception that leaves
  the function. The caller passes whatever the payload holds as \<open>filter_command\<close>, so
  it is a decoded value. \<open>subprocess.run\<close> kills its child when the timeout expires.
  The pipeline runs in a shell and may change any file.
\<close>

definition filter_output :: "env \<Rightarrow> json \<Rightarrow> pystr option \<Rightarrow> world \<Rightarrow> (exn + pystr) \<times> world" where
  "filter_output e filter_command working_dir w =
     (let w1 = w\<lparr>spawned := spawned w @ [Shell filter_command working_dir],
                   files := shell_files e w filter_command working_dir\<rparr> in
      case subprocess_run e w filter_command working_dir of
        Inr (Completed returncode out err) \<Rightarrow>
          (Inr (if returncode = 0 then out else ustr ''Filter error: '' @ err), w1)
      | Inl (TimeoutExpired m) \<Rightarrow> (Inr (ustr ''Filter command timed out''), w1)
      | Inl other \<Rightarrow> (Inr (ustr ''Filter error: '' @ exn_str other), w1))"

section \<open>\<open>CommandExecutor.run_ai_command\<close>\<close>

text \<open>
  \<^verbatim>\<open>
  reason = data.get("reason", "No reason provided")
  command = data.get("content", "").strip("`")
  output_name = CommandExecutor.sanitize_filename(data.get("output_name", "output.txt"))
  return_to_ai = data.get("return_to_ai", "")
  should_continue = data.get("continue", True)
  \<close>
  The statements run in this order and the first one that raises ends the function:
  \<open>get\<close> on a value that is no dict, \<open>strip\<close> on a content that is no string,
  \<open>sanitize_filename\<close> on an output name that is no string.
\<close>

definition command_params :: "env \<Rightarrow> json \<Rightarrow> exn + (pystr \<times> pystr \<times> json \<times> json)" where
  "command_params e data =
     ebind (py_get data (ustr ''reason'') (JStr (ustr ''No reason provided''))) (\<lambda>reason.
     ebind (py_get data (ustr ''content'') (JStr [])) (\<lambda>content.
     ebind (str_method content) (\<lambda>content_str.
     ebind (py_get data (ustr ''output_name'') (JStr (ustr ''output.txt''))) (\<lambda>name.
     ebind (fspath name) (\<lambda>name_str.
     ebind (py_get data (ustr ''return_to_ai'') (JStr [])) (\<lambda>return_to_ai.
     ebind (py_get data (ustr ''continue'') (JBool True)) (\<lambda>should_continue.
       Inr (strip_backticks content_str, sanitize_filename (uni_alnum e) name_str,
            return_to_ai, should_continue))))))))"

text \<open>
  \<^verbatim>\<open>
  try:
      data = json.loads(ai_response_json)
  except json.JSONDecodeError as e:
      return f"Error: Invalid JSON from AI - {e}"
  ...
  if not command:
      return "No command to execute."
  output_path = f"command_outputs/{output_name}"
  success = CommandExecutor.run_command(command, output_path)
  if not success:
      return f"Error executing command: {command}"
  filtered_output = ""
  if return_to_ai:
      filtered_output = CommandExecutor.filter_output(return_to_ai, 'command_outputs')
  if not should_continue:
      return "Stopping as requested."
  return filtered_output or f"(Raw output saved to {output_name})"
  \<close>
  \<open>Inl\<close> is an exception that leaves \<open>run_ai_command\<close>.
\<close>

definition run_ai_command :: "env \<Rightarrow> pystr \<Rightarrow> world \<Rightarrow> (exn + pystr) \<times> world" where
  "run_ai_command e ai_response_json w =
     (case json_loads e ai_response_json of
        Inl (JSONDecodeError m) \<Rightarrow> (Inr (ustr ''Error: Invalid JSON from AI - '' @ m), w)
      | Inl other \<Rightarrow> (Inl other, w)
      | Inr data \<Rightarrow>
          (case command_params e data of
             Inl ex \<Rightarrow> (Inl ex, w)
           | Inr (command, output_name, return_to_ai, should_continue) \<Rightarrow>
               if command = [] then (Inr (ustr ''No command to execute.''), w)
               else
                 (let output_path = ustr ''command_outputs/'' @ output_name in
                  case run_command e command output_path None w of
                    (success, w1) \<Rightarrow>
                      if \<not> success then (Inr (ustr ''Error executing command: '' @ command), w1)
                      else
                        (case (if truthy return_to_ai
                               then filter_output e return_to_ai (Some (ustr ''command_outputs'')) w1
                               else (Inr [], w1)) of
                           (Inl ex, w2) \<Rightarrow> (Inl ex, w2)
                         | (Inr filtered_output, w2) \<Rightarrow>
                             if \<not> truthy should_continue
                             then (Inr (ustr ''Stopping as requested.''), w2)
                             else (Inr (if filtered_output \<noteq> [] then filtered_output
                                        else ustr ''(Raw output saved to '' @ output_name @ ustr '')''),
                                   w2)))))"

section \<open>\<open>CommandExecutor.run_script\<close>\<close>

text \<open>
  \<^verbatim>\<open>
  reason = data.get("reason", "No reason provided")
  script_content = data.get("content", "").strip("`")
  output_name = CommandExecutor.sanitize_filename(data.get("output_name", "output.txt"))
  return_to_ai = data.get("return_to_ai", "")
  should_continue = data.get("continue", True)
  script_name = CommandExecutor.sanitize_filename(data.get("script_name", "ai_script"))
  script_type = data.get("script_type", "").strip().lower()
  \<close>
\<close>

definition script_params ::
  "env \<Rightarrow> json \<Rightarrow> exn + (pystr \<times> pystr \<times> json \<times> json \<times> pystr \<times> pystr)" where
  "script_params e data =
     ebind (command_params e data) (\<lambda>(script_content, output_name, return_to_ai, should_continue).
     ebind (py_get data (ustr ''script_name'') (JStr (ustr ''ai_script''))) (\<lambda>name.
     ebind (fspath name) (\<lambda>name_str.
     ebind (py_get data (ustr ''script_type'') (JStr [])) (\<lambda>ty.
     ebind (str_method ty) (\<lambda>ty_str.
       Inr (script_content, output_name, return_to_ai, should_continue,
            sanitize_filename (uni_alnum e) name_str, str_lower e (py_strip ty_str)))))))"

text \<open>
  \<^verbatim>\<open>
  script_path = f"scripts/{script_name}"
  with open(script_path, "w") as script_file:
      script_file.write(script_content)
  if script_type == "bash":
      os.chmod(script_path, 0o755)
  output_path = f"command_outputs/{output_name}"
  if script_type == "python":
      cmd = f"python3 {script_path}"
  elif script_type == "bash":
      cmd = f"bash {script_path}"
  else:
      return f"Error: Unsupported script type {script_type}"
  success = CommandExecutor.run_command(cmd, output_path, 'scripts')
  if not success:
      return f"Error executing script: {script_name}"
  \<close>
  and then as \<open>run_ai_command\<close> ends. \<open>os.chmod\<close> on the file just written is taken to
  succeed.
\<close>

definition run_script :: "env \<Rightarrow> pystr \<Rightarrow> world \<Rightarrow> (exn + pystr) \<times> world" where
  "run_script e ai_response_json w =
     (case json_loads e ai_response_json of
        Inl (JSONDecodeError m) \<Rightarrow> (Inr (ustr ''Error: Invalid JSON from AI - '' @ m), w)
      | Inl other \<Rightarrow> (Inl other, w)
      | Inr data \<Rightarrow>
          (case script_params e data of
             Inl ex \<Rightarrow> (Inl ex, w)
           | Inr (script_content, output_name, return_to_ai, should_continue,
                  script_name, script_type) \<Rightarrow>
               (let script_path = ustr ''scripts/'' @ script_name in
                case open_w e w script_path of
                  Some ex \<Rightarrow> (Inl ex, w)
                | None \<Rightarrow>
                    (let w0 = w\<lparr>files := (files w)(script_path \<mapsto> script_content)\<rparr>;
                         w1 = (if script_type = ustr ''bash''
                               then w0\<lparr>executable := insert script_path (executable w0)\<rparr>
                               else w0);
                         output_path = ustr ''command_outputs/'' @ output_name
                     in if script_type \<noteq> ustr ''python'' \<and> script_type \<noteq> ustr ''bash''
                        then (Inr (ustr ''Error: Unsupported script type '' @ script_type), w1)
                        else
                          (let cmd = (if script_type = ustr ''python''
                                      then ustr ''python3 '' @ script_path
                                      else ustr ''bash '' @ script_path) in
                           case run_command e cmd output_path (Some (ustr ''scripts'')) w1 of
                             (success, w2) \<Rightarrow>
                               if \<not> success
                               then (Inr (ustr ''Error executing script: '' @ script_name), w2)
                               else
                                 (case (if truthy return_to_ai
                                        then filter_output e return_to_ai
                                               (Some (ustr ''command_outputs'')) w2
                                        else (Inr [], w2)) of
                                    (Inl ex, w3) \<Rightarrow> (Inl ex, w3)
                                  | (Inr filtered_output, w3) \<Rightarrow>
                                      if \<not> truthy should_continue
                                      then (Inr (ustr ''Stopping as requested.''), w3)
                                      else (Inr (if filtered_output \<noteq> [] then filtered_output
                                                 else ustr ''(Raw output saved to '' @ output_name
                                                      @ ustr '')''),
                                            w3)))))))"

section \<open>\<open>PentestAutomation\<close>\<close>

text \<open>
  \<^verbatim>\<open>
  try:
      cleaned_response = AICyberSecurityAssistant.clean_ai_response(ai_response)
      if not self.ai.validate_response(cleaned_response):
          return None
      data = json.loads(cleaned_response)
      action_type = data.get("type")
      if action_type == "command":
          return self.executor.run_ai_command(cleaned_response)
      elif action_type == "script":
          return self.executor.run_script(cleaned_response)
      else:
          return None
  except Exception as e:
      return None
  \<close>
  An exception that leaves the executor is caught here; what the executor did to the
  world before raising stays done. The two \<open>data.get\<close> of the log lines cannot raise once
  \<open>data.get("type")\<close> has returned.
\<close>

definition execute_ai_command :: "env \<Rightarrow> pystr \<Rightarrow> world \<Rightarrow> pystr option \<times> world" where
  "execute_ai_command e ai_response w =
     (let cleaned_response = clean_ai_response ai_response in
      if \<not> validate_response e cleaned_response then (None, w)
      else
        case ebind (json_loads e cleaned_response) (\<lambda>data. py_get data (ustr ''type'') JNull) of
          Inl ex \<Rightarrow> (None, w)
        | Inr action_type \<Rightarrow>
            if action_type = JStr (ustr ''command'') then
              (case run_ai_command e cleaned_response w of
                 (Inl ex, w1) \<Rightarrow> (None, w1)
               | (Inr output, w1) \<Rightarrow> (Some output, w1))
            else if action_type = JStr (ustr ''script'') then
              (case run_script e cleaned_response w of
                 (Inl ex, w1) \<Rightarrow> (None, w1)
               | (Inr output, w1) \<Rightarrow> (Some output, w1))
            else (None, w))"

text \<open>The fields of \<open>PentestAutomation\<close> that the loop reads and writes.\<close>

record automation =
  "context" :: pystr
  iteration :: nat
  max_iterations :: nat

text \<open>\<open>__init__\<close>: an empty context, no iteration yet, the limit of 50.\<close>

definition init_automation :: automation where
  "init_automation = \<lparr>context = [], iteration = 0, max_iterations = 50\<rparr>"

text \<open>
  \<^verbatim>\<open>
  target = input("Enter target (URL/IP): ").strip()
  if not target:
      return False
  guide = input("Anything Else? ...").strip()
  self.context = f"Target: {target}\nAdditional context: {guide or 'No additional guidance'}"
  return True
  \<close>
  The two lines typed by the operator are the arguments; \<open>None\<close> is the return of
  \<open>False\<close>, \<open>Some\<close> carries the new context. The check of the target's format only logs.
\<close>

definition get_target_info :: "pystr \<Rightarrow> pystr \<Rightarrow> pystr option" where
  "get_target_info target_line guide_line =
     (let target = py_strip target_line in
      if target = [] then None
      else
        (let guide = py_strip guide_line in
         Some (ustr ''Target: '' @ target @ [newline] @ ustr ''Additional context: ''
               @ (if guide \<noteq> [] then guide else ustr ''No additional guidance''))))"

text \<open>
  \<^verbatim>\<open>
  try:
      cleaned = AICyberSecurityAssistant.clean_ai_response(ai_response)
      data = json.loads(cleaned)
      if not data.get("continue", True):
          break
  except:
      pass
  \<close>
  \<open>True\<close> when the loop breaks here.
\<close>

definition oracle_says_stop :: "env \<Rightarrow> pystr \<Rightarrow> bool" where
  "oracle_says_stop e ai_response =
     (case ebind (json_loads e (clean_ai_response ai_response))
             (\<lambda>data. py_get data (ustr ''continue'') (JBool True)) of
        Inl ex \<Rightarrow> False
      | Inr v \<Rightarrow> \<not> truthy v)"

text \<open>
  \<^verbatim>\<open>
  self.context = f"{self.context}\nLast command output: {output}"
  if len(self.context) > 4000:
      self.context = self.context[-4000:]
  \<close>
\<close>

definition update_context :: "pystr \<Rightarrow> pystr \<Rightarrow> pystr" where
  "update_context ctx output =
     (let ctx1 = ctx @ [newline] @ ustr ''Last command output: '' @ output in
      if length ctx1 > 4000 then drop (length ctx1 - 4000) ctx1 else ctx1)"

text \<open>
  \<^verbatim>\<open>
  while self.iteration < self.max_iterations:
      self.iteration += 1
      sleep(random.randint(8, 20))
      ai_response = self.ai.chat(self.context)
      if not ai_response:
          continue
      output = self.execute_ai_command(ai_response)
      if output is None:
          break
      ... the check of "continue" ...
      ... the update of the context ...
  \<close>
  The pause changes nothing the model follows. The loop returns the fields and the world
  as they are when it ends.
\<close>

function run_loop :: "env \<Rightarrow> automation \<Rightarrow> world \<Rightarrow> automation \<times> world" where
  "run_loop e a w =
     (if iteration a < max_iterations a then
        (let a1 = a\<lparr>iteration := iteration a + 1\<rparr>;
             ai_response = chat e w (context a1);
             w1 = w\<lparr>prompts := prompts w @ [context a1]\<rparr>
         in case ai_response of
              None \<Rightarrow> run_loop e a1 w1
            | Some reply \<Rightarrow>
                if reply = [] then run_loop e a1 w1
                else
                  (case execute_ai_command e reply w1 of
                     (None, w2) \<Rightarrow> (a1, w2)
                   | (Some output, w2) \<Rightarrow>
                       if oracle_says_stop e reply then (a1, w2)
                       else run_loop e (a1\<lparr>context := update_context (context a1) output\<rparr>) w2))
      else (a, w))"
  by pat_completeness auto
termination
  by (relation "measure (\<lambda>(e, a, w). max_iterations a - iteration a)") auto

text \<open>
  \<^verbatim>\<open>
  if not self.get_target_info():
      return
  while ...
  \<close>
\<close>

definition run :: "env \<Rightarrow> pystr \<Rightarrow> pystr \<Rightarrow> automation \<Rightarrow> world \<Rightarrow> automation \<times> world" where
  "run e target_line guide_line a w =
     (case get_target_info target_line guide_line of
        None \<Rightarrow> (a, w)
      | Some ctx \<Rightarrow> run_loop e (a\<lparr>context := ctx\<rparr>) w)"

section \<open>A concrete world and environment for evaluation\<close>

definition empty_world :: world where
  "empty_world = \<lparr>files = Map.empty, executable = {}, spawned = [], running = [],
                    error_log = [], prompts = []\<rparr>"

text \<open>
  \<open>shlex.split\<close> on a command made of words separated by blanks, with no quote and no
  backslash: the words. \<open>cur\<close> is the word being read.
\<close>

fun words_of :: "pystr \<Rightarrow> pystr \<Rightarrow> pystr list" where
  "words_of cur [] = (if cur = [] then [] else [cur])"
| "words_of cur (c # cs) =
     (if c = 32 then (if cur = [] then words_of [] cs else cur # words_of [] cs)
      else words_of (cur @ [c]) cs)"

text \<open>\<open>json.loads\<close> on the few texts of a table; any other text is not JSON.\<close>

definition decode_table :: "(pystr \<times> json) list \<Rightarrow> pystr \<Rightarrow> exn + json" where
  "decode_table table s =
     (case map_of table s of
        Some v \<Rightarrow> Inr v
      | None \<Rightarrow> Inl (JSONDecodeError (ustr ''Expecting value'')))"

text \<open>The replies of the oracle used below, each as the text sent and as the value decoded.\<close>

definition sleep_text :: pystr where
  \<open>sleep_text = ustr ''{"type":"command","content":"sleep 400","reason":"r","continue":true}''\<close>

definition sleep_json :: json where
  "sleep_json = JObj [(ustr ''type'', JStr (ustr ''command'')),
                      (ustr ''content'', JStr (ustr ''sleep 400'')),
                      (ustr ''reason'', JStr (ustr ''r'')),
                      (ustr ''continue'', JBool True)]"

definition ls_text :: pystr where
  \<open>ls_text = ustr ''{"type":"command","content":"ls -la","reason":"r","continue":false}''\<close>

definition ls_json :: json where
  "ls_json = JObj [(ustr ''type'', JStr (ustr ''command'')),
                   (ustr ''content'', JStr (ustr ''ls -la'')),
                   (ustr ''reason'', JStr (ustr ''r'')),
                   (ustr ''continue'', JBool False)]"

definition rm_text :: pystr where
  \<open>rm_text = ustr ''{"type":"command","content":"rm -rf /","reason":"r","continue":true}''\<close>

definition rm_json :: json where
  "rm_json = JObj [(ustr ''type'', JStr (ustr ''command'')),
                   (ustr ''content'', JStr (ustr ''rm -rf /'')),
                   (ustr ''reason'', JStr (ustr ''r'')),
                   (ustr ''continue'', JBool True)]"

definition null_name_text :: pystr where
  \<open>null_name_text =
     ustr ''{"type":"command","content":"","reason":"r","continue":true,"output_name":null}''\<close>

definition null_name_json :: json where
  "null_name_json = JObj [(ustr ''type'', JStr (ustr ''command'')),
                          (ustr ''content'', JStr []),
                          (ustr ''reason'', JStr (ustr ''r'')),
                          (ustr ''continue'', JBool True),
                          (ustr ''output_name'', JNull)]"

definition script_text :: pystr where
  \<open>script_text =
     ustr ''{"type":"script","content":"id","reason":"r","continue":true,"script_type":"bash","script_name":""}''\<close>

definition script_json :: json where
  "script_json = JObj [(ustr ''type'', JStr (ustr ''script'')),
                       (ustr ''content'', JStr (ustr ''id'')),
                       (ustr ''reason'', JStr (ustr ''r'')),
                       (ustr ''continue'', JBool True),
                       (ustr ''script_type'', JStr (ustr ''bash'')),
                       (ustr ''script_name'', JStr [])]"

definition backticks_text :: pystr where
  \<open>backticks_text = ustr ''{"type":"command","content":"```"}''\<close>

definition backticks_json :: json where
  "backticks_json = JObj [(ustr ''type'', JStr (ustr ''command'')),
                          (ustr ''content'', JStr [backtick, backtick, backtick])]"

definition no_content_text :: pystr where
  \<open>no_content_text = ustr ''{"type":"command","reason":"r","continue":true}''\<close>

definition no_content_fields :: "(pystr \<times> json) list" where
  "no_content_fields = [(ustr ''type'', JStr (ustr ''command'')),
                        (ustr ''reason'', JStr (ustr ''r'')),
                        (ustr ''continue'', JBool True)]"

definition replies :: "(pystr \<times> json) list" where
  "replies = [(sleep_text, sleep_json), (ls_text, ls_json), (rm_text, rm_json),
              (null_name_text, null_name_json), (script_text, script_json),
              (backticks_text, backticks_json), (no_content_text, JObj no_content_fields)]"

text \<open>
  An environment in which every file opens, \<open>sleep 400\<close> outlives the timeout without
  writing anything, the program \<open>nosuchprog\<close> cannot be started, \<open>rm\<close> deletes the file
  \<open>command_outputs/output.txt\<close>, every other program prints a line to its redirected
  output and exits with status 0, a filter pipeline changes no file, and the oracle has
  no reply.
\<close>

definition base_env :: env where
  "base_env =
     \<lparr>uni_alnum = latin1_alnum,
      str_lower = map ascii_lower,
      json_loads = decode_table replies,
      get_knowledge = (\<lambda>ref. Inr (JStr (ustr ''Reference not found''))),
      shlex_split = (\<lambda>s. Inr (words_of [] s)),
      open_w = (\<lambda>w path. None),
      popen = (\<lambda>w argv out_path cwd.
        if argv = [ustr ''sleep'', ustr ''400''] then Hangs (files w)
        else if argv = [ustr ''nosuchprog''] then SpawnError (OtherError (ustr ''No such file or directory''))
        else if argv = [ustr ''rm'', ustr ''command_outputs/output.txt'']
        then Exits ((files w)(ustr ''command_outputs/output.txt'' := None)) 0
        else Exits ((files w)(out_path \<mapsto> ustr ''done'')) 0),
      subprocess_run = (\<lambda>w cmd cwd. Inr (Completed 0 [] [])),
      shell_files = (\<lambda>w cmd cwd. files w),
      chat = (\<lambda>w ctx. None)\<rparr>"

text \<open>The oracle that first asks for \<open>sleep 400\<close> and then for \<open>ls -la\<close>, telling to stop.\<close>

definition two_turn_env :: env where
  "two_turn_env =
     base_env\<lparr>chat := (\<lambda>w ctx. if prompts w = [] then Some sleep_text else Some ls_text)\<rparr>"

text \<open>A filter command that fails: \<open>grep\<close> on a file that does not exist.\<close>

definition failing_filter_env :: env where
  "failing_filter_env =
     base_env\<lparr>subprocess_run := (\<lambda>w cmd cwd.
        Inr (Completed 2 [] (ustr ''grep: out.txt: No such file or directory'')))\<rparr>"

section \<open>Properties of \<open>sanitize_filename\<close>\<close>

lemma basename_no_slash: "slash \<notin> set (basename p)"
proof
  assume "slash \<in> set (basename p)"
  then have "slash \<in> set (takeWhile (\<lambda>c. c \<noteq> slash) (rev p))"
    by (simp add: basename_def)
  then show False
    by (auto dest: set_takeWhileD)
qed

lemma sanitize_filename_length: "length (sanitize_filename t f) \<le> 100"
  by (simp add: sanitize_filename_def Let_def)

lemma sanitize_filename_set:
  assumes "c \<in> set (sanitize_filename t f)"
  shows "c = underscore \<or> (c \<in> set (basename f) \<and> (re_word t c \<or> c = dot \<or> c = hyphen))"
proof -
  from assms have "c \<in> set (map (\<lambda>c. if re_word t c \<or> c = dot \<or> c = hyphen \<or> c = underscore
                                then c else underscore) (basename f))"
    by (auto simp: sanitize_filename_def Let_def dest: in_set_takeD)
  then show ?thesis
    by (auto split: if_splits)
qed

lemma basename_subset: "set (basename p) \<subseteq> set p"
  by (auto simp: basename_def dest: set_takeWhileD)

lemma re_word_cases: "re_word t c \<Longrightarrow> ascii_alnum c \<or> c = underscore \<or> (128 \<le> c \<and> t c)"
  by (auto simp: re_word_def split: if_splits)

text \<open>
  Claim C1, as the specification states it: every sanitized name consists of characters
  of \<open>[A-Za-z0-9._-]\<close> only. It fails on a name with a non-ASCII letter, which \<open>\w\<close>
  accepts: the name made of the letter e with acute accent (code point 233) followed by
  \<open>.txt\<close> is returned unchanged.
\<close>

theorem sanitize_filename_ascii_class_counterexample:
  "sanitize_filename latin1_alnum [233, 46, 116, 120, 116] = [233, 46, 116, 120, 116]
   \<and> \<not> list_all spec_filename_char (sanitize_filename latin1_alnum [233, 46, 116, 120, 116])"
  by (simp add: sanitize_filename_def basename_def slash_def re_word_def latin1_alnum_def
      ascii_alnum_def spec_filename_char_def dot_def hyphen_def underscore_def)

text \<open>
  Claim C1, amended: for every filename, the sanitized name has at most 100 characters,
  contains neither a slash nor a backslash, and each of its characters is in
  \<open>[A-Za-z0-9._-]\<close> or is a non-ASCII character that Unicode classifies as alphanumeric
  (which \<open>\w\<close> lets through); for a filename of ASCII characters only, every character
  of the sanitized name is in \<open>[A-Za-z0-9._-]\<close>.
\<close>

theorem sanitize_filename_safe:
  "length (sanitize_filename t f) \<le> 100
   \<and> slash \<notin> set (sanitize_filename t f)
   \<and> backslash \<notin> set (sanitize_filename t f)
   \<and> (\<forall>c \<in> set (sanitize_filename t f). spec_filename_char c \<or> (128 \<le> c \<and> t c))
   \<and> ((\<forall>c \<in> set f. c < 128) \<longrightarrow> (\<forall>c \<in> set (sanitize_filename t f). spec_filename_char c))"
proof (intro conjI ballI impI)
  show "length (sanitize_filename t f) \<le> 100"
    by (rule sanitize_filename_length)
next
  show "slash \<notin> set (sanitize_filename t f)"
  proof
    assume "slash \<in> set (sanitize_filename t f)"
    from sanitize_filename_set [OF this] basename_no_slash [of f] show False
      by (simp add: slash_def underscore_def)
  qed
next
  show "backslash \<notin> set (sanitize_filename t f)"
  proof
    assume "backslash \<in> set (sanitize_filename t f)"
    from sanitize_filename_set [OF this] show False
      by (simp add: backslash_def underscore_def dot_def hyphen_def re_word_def ascii_alnum_def)
  qed
next
  fix c assume "c \<in> set (sanitize_filename t f)"
  from sanitize_filename_set [OF this] show "spec_filename_char c \<or> (128 \<le> c \<and> t c)"
    by (auto simp: spec_filename_char_def dest: re_word_cases)
next
  fix c assume ascii: "\<forall>c \<in> set f. c < 128" and c: "c \<in> set (sanitize_filename t f)"
  from sanitize_filename_set [OF c] basename_subset [of f] ascii
  show "spec_filename_char c"
    by (auto simp: spec_filename_char_def re_word_def split: if_splits)
qed

theorem sanitize_filename_safe_witness:
  "sanitize_filename latin1_alnum (ustr ''../../etc/pass wd'') = ustr ''pass_wd''
   \<and> underscore \<in> set (sanitize_filename latin1_alnum (ustr ''../../etc/pass wd''))
   \<and> (spec_filename_char underscore \<or> (128 \<le> underscore \<and> latin1_alnum underscore))"
  using sanitize_filename_safe [of latin1_alnum "ustr ''../../etc/pass wd''"]
  by (simp add: sanitize_filename_def basename_def slash_def re_word_def latin1_alnum_def
      ascii_alnum_def spec_filename_char_def dot_def hyphen_def underscore_def ustr_def)

section \<open>The matcher against the meaning of the patterns\<close>

lemma item_lang_Nil: "[] \<in> item_lang (Rep c lo hi) \<longleftrightarrow> lo = 0"
  by (auto split: option.splits)

lemma item_lang_Cons:
  "x # u \<in> item_lang (Rep c lo hi) \<longleftrightarrow>
     hi \<noteq> Some 0 \<and> cls_match c x \<and> u \<in> item_lang (Rep c (lo - 1) (map_option (\<lambda>h. h - 1) hi))"
  by (cases hi) auto

lemma prefix_in_Nil: "prefix_in [] s"
  by (simp add: prefix_in_def)

lemma prefix_in_empty:
  "prefix_in (Rep c lo hi # items) [] \<longleftrightarrow> lo = 0 \<and> prefix_in items []"
  by (auto simp: prefix_in_def split: option.splits)

lemma prefix_in_Cons:
  "prefix_in (Rep c lo hi # items) (x # xs) \<longleftrightarrow>
     (hi \<noteq> Some 0 \<and> cls_match c x
        \<and> prefix_in (Rep c (lo - 1) (map_option (\<lambda>h. h - 1) hi) # items) xs)
     \<or> (lo = 0 \<and> prefix_in items (x # xs))"
  (is "?L \<longleftrightarrow> ?A \<or> ?B")
proof
  assume ?L
  then obtain u t v where s: "x # xs = (u @ t) @ v"
    and u: "u \<in> item_lang (Rep c lo hi)" and t: "t \<in> pattern_lang items"
    by (auto simp: prefix_in_def)
  show "?A \<or> ?B"
  proof (cases u)
    case Nil
    with u have "lo = 0" using item_lang_Nil by blast
    moreover from s Nil t have "prefix_in items (x # xs)"
      by (auto simp: prefix_in_def)
    ultimately show ?thesis by blast
  next
    case (Cons y u')
    with s have y: "y = x" and xs: "xs = (u' @ t) @ v" by auto
    from u Cons y have "x # u' \<in> item_lang (Rep c lo hi)" by simp
    then have c: "hi \<noteq> Some 0" "cls_match c x"
      and u': "u' \<in> item_lang (Rep c (lo - 1) (map_option (\<lambda>h. h - 1) hi))"
      unfolding item_lang_Cons by blast+
    from u' t have "u' @ t \<in> pattern_lang (Rep c (lo - 1) (map_option (\<lambda>h. h - 1) hi) # items)"
      by (simp only: pattern_lang.simps) blast
    with xs have "prefix_in (Rep c (lo - 1) (map_option (\<lambda>h. h - 1) hi) # items) xs"
      unfolding prefix_in_def by blast
    with c show ?thesis by blast
  qed
next
  assume "?A \<or> ?B"
  then show ?L
  proof
    assume a: ?A
    then obtain u' t v where xs: "xs = (u' @ t) @ v"
      and u': "u' \<in> item_lang (Rep c (lo - 1) (map_option (\<lambda>h. h - 1) hi))"
      and t: "t \<in> pattern_lang items"
      by (auto simp: prefix_in_def simp del: item_lang.simps)
    from a u' have "x # u' \<in> item_lang (Rep c lo hi)"
      unfolding item_lang_Cons by blast
    with t have "(x # u') @ t \<in> pattern_lang (Rep c lo hi # items)"
      by (simp only: pattern_lang.simps) blast
    moreover from xs have "x # xs = ((x # u') @ t) @ v" by simp
    ultimately show ?L unfolding prefix_in_def by blast
  next
    assume b: ?B
    then obtain t v where s: "x # xs = t @ v" and t: "t \<in> pattern_lang items"
      by (auto simp: prefix_in_def)
    from b have "[] \<in> item_lang (Rep c lo hi)" unfolding item_lang_Nil by blast
    with t have "[] @ t \<in> pattern_lang (Rep c lo hi # items)"
      by (simp only: pattern_lang.simps) blast
    with s show ?L unfolding prefix_in_def by (metis append_Nil)
  qed
qed

lemma match_here_prefix_in: "match_here p s = prefix_in p s"
proof (induction p s rule: match_here.induct)
  case (1 s)
  show ?case by (simp add: prefix_in_Nil)
next
  case (2 c lo hi items)
  then show ?case by (simp add: prefix_in_empty)
next
  case (3 c lo hi items x xs)
  then show ?case by (simp only: match_here.simps prefix_in_Cons split: if_splits) blast
qed

lemma occurs_in_Nil: "occurs_in p [] = prefix_in p []"
  by (auto simp: occurs_in_def prefix_in_def)

lemma occurs_in_Cons: "occurs_in p (x # xs) \<longleftrightarrow> prefix_in p (x # xs) \<or> occurs_in p xs"
proof
  assume "occurs_in p (x # xs)"
  then obtain u w v where s: "x # xs = u @ w @ v" and w: "w \<in> pattern_lang p"
    by (auto simp: occurs_in_def)
  show "prefix_in p (x # xs) \<or> occurs_in p xs"
  proof (cases u)
    case Nil
    with s w show ?thesis by (auto simp: prefix_in_def)
  next
    case (Cons y u')
    with s have "xs = u' @ w @ v" by simp
    with w show ?thesis unfolding occurs_in_def by blast
  qed
next
  assume "prefix_in p (x # xs) \<or> occurs_in p xs"
  then show "occurs_in p (x # xs)"
  proof
    assume "prefix_in p (x # xs)"
    then obtain w v where "x # xs = [] @ w @ v" "w \<in> pattern_lang p"
      by (auto simp: prefix_in_def)
    then show ?thesis unfolding occurs_in_def by blast
  next
    assume "occurs_in p xs"
    then obtain u w v where "xs = u @ w @ v" "w \<in> pattern_lang p"
      by (auto simp: occurs_in_def)
    then have "x # xs = (x # u) @ w @ v" by simp
    with \<open>w \<in> pattern_lang p\<close> show ?thesis unfolding occurs_in_def by blast
  qed
qed

lemma re_search_occurs_in: "re_search p s = occurs_in p s"
  by (induction s) (simp_all add: occurs_in_Nil occurs_in_Cons match_here_prefix_in)

lemma validate_loop_iff: "validate_loop ps c \<longleftrightarrow> \<not> (\<exists>p \<in> set ps. occurs_in p c)"
  by (induction ps) (simp_all add: re_search_occurs_in)

lemma validate_command_iff:
  "validate_command c \<longleftrightarrow> \<not> (\<exists>p \<in> set dangerous_patterns. occurs_in p c)"
  by (simp add: validate_command_def validate_loop_iff)

section \<open>Evaluating the deny list on a command\<close>

lemmas pat_defs = dangerous_patterns_def lits_def once_def one_or_more_def zero_or_more_def
lemmas chr_defs = ci_eq_def ascii_lower_def is_space_def newline_def Let_def

lemma validate_rm_rf: "validate_command (ustr ''rm -rf /'') = False"
  by (simp add: validate_command_def pat_defs ustr_def chr_defs)

lemma validate_sleep: "validate_command (ustr ''sleep 400'') = True"
  by (simp add: validate_command_def pat_defs ustr_def chr_defs)

lemma validate_ls: "validate_command (ustr ''ls -la'') = True"
  by (simp add: validate_command_def pat_defs ustr_def chr_defs)

text \<open>
  Claim C3: \<open>validate_command\<close> returns \<open>False\<close> for every command in which a pattern of
  the deny list matches somewhere, letters compared without regard to case; it returns
  \<open>False\<close> for \<open>rm -rf /\<close>, for \<open>chmod 777 /etc\<close> and for an upper-case \<open>RM -RF /\<close>, and
  \<open>True\<close> for \<open>ls -la\<close>.
\<close>

theorem validate_command_denies:
  "((\<exists>p \<in> set dangerous_patterns. occurs_in p command) \<longrightarrow> validate_command command = False)
   \<and> validate_command (ustr ''rm -rf /'') = False
   \<and> validate_command (ustr ''chmod 777 /etc'') = False
   \<and> validate_command (ustr ''RM -RF /'') = False
   \<and> validate_command (ustr ''ls -la'') = True"
proof (intro conjI)
  show "(\<exists>p \<in> set dangerous_patterns. occurs_in p command) \<longrightarrow> validate_command command = False"
    by (simp add: validate_command_iff)
next
  show "validate_command (ustr ''rm -rf /'') = False"
    by (simp add: validate_command_def pat_defs ustr_def chr_defs)
next
  show "validate_command (ustr ''chmod 777 /etc'') = False"
    by (simp add: validate_command_def pat_defs ustr_def chr_defs)
next
  show "validate_command (ustr ''RM -RF /'') = False"
    by (simp add: validate_command_def pat_defs ustr_def chr_defs)
next
  show "validate_command (ustr ''ls -la'') = True"
    by (simp add: validate_command_def pat_defs ustr_def chr_defs)
qed

theorem validate_command_denies_witness:
  "occurs_in (lits ''rm'' @ [one_or_more Space] @ lits ''-rf'') (ustr ''sudo RM  -Rf /tmp'')
   \<and> validate_command (ustr ''sudo RM  -Rf /tmp'') = False"
proof -
  have o: "occurs_in (lits ''rm'' @ [one_or_more Space] @ lits ''-rf'') (ustr ''sudo RM  -Rf /tmp'')"
    unfolding re_search_occurs_in [symmetric]
    by (simp add: pat_defs ustr_def chr_defs)
  have "lits ''rm'' @ [one_or_more Space] @ lits ''-rf'' \<in> set dangerous_patterns"
    by (simp add: dangerous_patterns_def)
  with o have "\<exists>p \<in> set dangerous_patterns. occurs_in p (ustr ''sudo RM  -Rf /tmp'')"
    by blast
  with validate_command_denies [of "ustr ''sudo RM  -Rf /tmp''"] o show ?thesis
    by blast
qed

section \<open>Sequencing\<close>

lemma ebind_Inl [simp]: "ebind (Inl ex) f = Inl ex"
  by (simp add: ebind_def)

lemma ebind_Inr [simp]: "ebind (Inr x) f = f x"
  by (simp add: ebind_def)

section \<open>Properties of \<open>filter_output\<close>\<close>




section \<open>Literals\<close>

lemma ustr_eq_iff [simp]: "ustr a = ustr b \<longleftrightarrow> a = b"
  by (simp add: ustr_def inj_map_eq_map inj_of_char)

lemma ustr_Nil_iff [simp]: "ustr a = [] \<longleftrightarrow> a = []"
  by (simp add: ustr_def)

section \<open>Properties of \<open>run_command\<close>\<close>

lemma run_command_except_fst [simp]: "fst (run_command_except c ex w) = False"
  by (simp add: run_command_except_def split: exn.splits)

lemma run_command_except_frame [simp]:
  "files (snd (run_command_except c ex w)) = files w"
  "spawned (snd (run_command_except c ex w)) = spawned w"
  "running (snd (run_command_except c ex w)) = running w"
  "prompts (snd (run_command_except c ex w)) = prompts w"
  "executable (snd (run_command_except c ex w)) = executable w"
  by (simp_all add: run_command_except_def log_error_def split: exn.splits)

lemma run_command_blocked:
  "\<not> validate_command c \<Longrightarrow>
   run_command e c p cwd w =
     (False, log_error (ustr ''Potentially dangerous command blocked: '' @ c) w)"
  by (simp add: run_command_def)

text \<open>The state in which the child is started: the output file has just been truncated.\<close>

lemma run_command_success_iff:
  "fst (run_command e c p cwd w) \<longleftrightarrow>
     validate_command c \<and> open_w e w p = None
     \<and> (\<exists>argv left status. shlex_split e c = Inr argv
           \<and> popen e (w\<lparr>files := (files w)(p \<mapsto> [])\<rparr>) argv p cwd = Exits left status)"
  by (auto simp: run_command_def Let_def split: option.splits sum.splits child.splits)

lemma run_command_timeout:
  assumes "validate_command c" "open_w e w p = None" "shlex_split e c = Inr argv"
    and "popen e (w\<lparr>files := (files w)(p \<mapsto> [])\<rparr>) argv p cwd = Hangs left"
  shows "fst (run_command e c p cwd w) = False"
    and "running (snd (run_command e c p cwd w)) = running w @ [Exec argv cwd]"
    and "error_log (snd (run_command e c p cwd w)) = error_log w @ [ustr ''Command timed out: '' @ c]"
  using assms
  by (simp_all add: run_command_def Let_def run_command_except_def log_error_def)

lemmas env_defs = base_env_def two_turn_env_def failing_filter_env_def empty_world_def

lemma words_sleep: "words_of [] (ustr ''sleep 400'') = [ustr ''sleep'', ustr ''400'']"
  by (simp add: ustr_def)

lemma words_nosuchprog: "words_of [] (ustr ''nosuchprog'') = [ustr ''nosuchprog'']"
  by (simp add: ustr_def)

lemma validate_nosuchprog: "validate_command (ustr ''nosuchprog'') = True"
  by (simp add: validate_command_def pat_defs ustr_def chr_defs)

lemma validate_rm_file: "validate_command (ustr ''rm command_outputs/output.txt'') = True"
  by (simp add: validate_command_def pat_defs ustr_def chr_defs)

lemma words_rm_file:
  "words_of [] (ustr ''rm command_outputs/output.txt'') = [ustr ''rm'', ustr ''command_outputs/output.txt'']"
  by (simp add: ustr_def)

lemma run_command_sleep:
  "run_command base_env (ustr ''sleep 400'') p None empty_world =
     (False, empty_world\<lparr>files := [p \<mapsto> []],
                         spawned := [Exec [ustr ''sleep'', ustr ''400''] None],
                         running := [Exec [ustr ''sleep'', ustr ''400''] None],
                         error_log := [ustr ''Command timed out: '' @ ustr ''sleep 400'']\<rparr>)"
  by (simp add: run_command_def validate_sleep env_defs words_sleep Let_def
      run_command_except_def log_error_def)

lemma run_command_nosuchprog:
  "run_command base_env (ustr ''nosuchprog'') p None empty_world =
     (False, empty_world\<lparr>files := [p \<mapsto> []],
                         spawned := [Exec [ustr ''nosuchprog''] None],
                         error_log := [ustr ''Error executing command '' @ ustr ''nosuchprog''
                                        @ ustr '': '' @ ustr ''No such file or directory'']\<rparr>)"
proof -
  have "[ustr ''nosuchprog''] \<noteq> [ustr ''sleep'', ustr ''400'']" by simp
  then show ?thesis
    by (simp add: run_command_def validate_nosuchprog env_defs words_nosuchprog Let_def
        run_command_except_def log_error_def)
qed

lemma run_command_rm:
  "run_command e (ustr ''rm -rf /'') p cwd w =
     (False, log_error (ustr ''Potentially dangerous command blocked: '' @ ustr ''rm -rf /'') w)"
  by (simp add: run_command_blocked validate_rm_rf)

text \<open>
  Claim C7 at a command that outlives the timeout: \<open>run_command\<close> returns \<open>False\<close> and logs
  the timeout, but the child is still among the running processes when it returns.
\<close>

theorem run_command_timeout_leaves_child:
  "fst (run_command base_env (ustr ''sleep 400'') (ustr ''command_outputs/output.txt'') None empty_world)
     = False
   \<and> error_log (snd (run_command base_env (ustr ''sleep 400'') (ustr ''command_outputs/output.txt'')
                        None empty_world))
     = [ustr ''Command timed out: '' @ ustr ''sleep 400'']
   \<and> running (snd (run_command base_env (ustr ''sleep 400'') (ustr ''command_outputs/output.txt'')
                      None empty_world))
     = [Exec [ustr ''sleep'', ustr ''400''] None]"
  by (simp add: run_command_sleep)

text \<open>
  Claim C8, as the specification states it: a blocked command still leaves a file at the
  output path and a spawn failure leaves none. On the code it is the other way round:
  after the blocked \<open>rm -rf /\<close> there is no file, after the failed launch of \<open>nosuchprog\<close>
  there is an empty one.
\<close>

theorem run_command_file_counterexample:
  "files (snd (run_command base_env (ustr ''rm -rf /'') (ustr ''command_outputs/output.txt'')
                 None empty_world)) (ustr ''command_outputs/output.txt'') = None
   \<and> files (snd (run_command base_env (ustr ''nosuchprog'') (ustr ''command_outputs/output.txt'')
                   None empty_world)) (ustr ''command_outputs/output.txt'') = Some []"
  by (simp add: run_command_rm run_command_nosuchprog log_error_def) (simp add: empty_world_def)

text \<open>
  Claim C8, amended: \<open>run_command\<close> creates the file at the output path empty, any prior
  content gone, exactly when the command passes \<open>validate_command\<close> and the file opens,
  and it does so before the process is started. When the command line cannot be split
  or the launch fails, that empty file is what remains and no other file is changed.
  When the process has started, whether it exits or outlives the timeout, the files
  after the call are those the process leaves: the file is there with the output of the
  process unless the process itself has removed or replaced it. A blocked command, and a
  command whose output file does not open, leave every file as it was.
\<close>

theorem run_command_output_file:
  "(\<not> validate_command c \<longrightarrow> files (snd (run_command e c p cwd w)) = files w)
   \<and> (\<forall>ex. validate_command c \<and> open_w e w p = Some ex
         \<longrightarrow> files (snd (run_command e c p cwd w)) = files w)
   \<and> (validate_command c \<and> open_w e w p = None \<longrightarrow>
         files (snd (run_command e c p cwd w)) =
           (case shlex_split e c of
              Inl ex \<Rightarrow> (files w)(p \<mapsto> [])
            | Inr argv \<Rightarrow>
                (case popen e (w\<lparr>files := (files w)(p \<mapsto> [])\<rparr>) argv p cwd of
                   SpawnError ex \<Rightarrow> (files w)(p \<mapsto> [])
                 | Exits left status \<Rightarrow> left
                 | Hangs left \<Rightarrow> left)))"
  by (auto simp: run_command_def Let_def log_error_def
      split: option.splits sum.splits child.splits)

theorem run_command_output_file_witness:
  "validate_command (ustr ''sleep 400'')
   \<and> open_w base_env (empty_world\<lparr>files := [ustr ''command_outputs/output.txt'' \<mapsto> ustr ''old'']\<rparr>)
        (ustr ''command_outputs/output.txt'') = None
   \<and> files (snd (run_command base_env (ustr ''sleep 400'') (ustr ''command_outputs/output.txt'') None
                   (empty_world\<lparr>files := [ustr ''command_outputs/output.txt'' \<mapsto> ustr ''old'']\<rparr>)))
      = [ustr ''command_outputs/output.txt'' \<mapsto> []]
   \<and> validate_command (ustr ''rm command_outputs/output.txt'')
   \<and> fst (run_command base_env (ustr ''rm command_outputs/output.txt'')
              (ustr ''command_outputs/output.txt'') None
              (empty_world\<lparr>files := [ustr ''command_outputs/output.txt'' \<mapsto> ustr ''old'']\<rparr>))
   \<and> files (snd (run_command base_env (ustr ''rm command_outputs/output.txt'')
                   (ustr ''command_outputs/output.txt'') None
                   (empty_world\<lparr>files := [ustr ''command_outputs/output.txt'' \<mapsto> ustr ''old'']\<rparr>)))
      = Map.empty
   \<and> \<not> validate_command (ustr ''rm -rf /'')
   \<and> files (snd (run_command base_env (ustr ''rm -rf /'') (ustr ''command_outputs/output.txt'') None
                   (empty_world\<lparr>files := [ustr ''command_outputs/output.txt'' \<mapsto> ustr ''old'']\<rparr>)))
      = [ustr ''command_outputs/output.txt'' \<mapsto> ustr ''old'']"
proof -
  define w where "w = empty_world\<lparr>files := [ustr ''command_outputs/output.txt'' \<mapsto> ustr ''old'']\<rparr>"
  have o: "open_w base_env w (ustr ''command_outputs/output.txt'') = None"
    by (simp add: base_env_def)
  have s1: "shlex_split base_env (ustr ''sleep 400'') = Inr [ustr ''sleep'', ustr ''400'']"
    by (simp add: base_env_def words_sleep)
  have s2: "shlex_split base_env (ustr ''rm command_outputs/output.txt'')
              = Inr [ustr ''rm'', ustr ''command_outputs/output.txt'']"
    by (simp add: base_env_def words_rm_file)
  have f: "files w = [ustr ''command_outputs/output.txt'' \<mapsto> ustr ''old'']"
    by (simp add: w_def empty_world_def)
  have p1: "popen base_env (w\<lparr>files := [ustr ''command_outputs/output.txt'' \<mapsto> []]\<rparr>)
              [ustr ''sleep'', ustr ''400''] (ustr ''command_outputs/output.txt'') None
            = Hangs [ustr ''command_outputs/output.txt'' \<mapsto> []]"
    by (simp add: base_env_def)
  have p2: "popen base_env (w\<lparr>files := [ustr ''command_outputs/output.txt'' \<mapsto> []]\<rparr>)
              [ustr ''rm'', ustr ''command_outputs/output.txt''] (ustr ''command_outputs/output.txt'') None
            = Exits Map.empty 0"
    by (simp add: base_env_def)
  have r: "fst (run_command base_env (ustr ''rm command_outputs/output.txt'')
              (ustr ''command_outputs/output.txt'') None w)"
    unfolding run_command_success_iff using o s2 p2 by (simp add: validate_rm_file f)
  from run_command_output_file [where c = "ustr ''sleep 400''" and e = base_env and w = w
      and p = "ustr ''command_outputs/output.txt''" and cwd = None]
    run_command_output_file [where c = "ustr ''rm command_outputs/output.txt''" and e = base_env
      and w = w and p = "ustr ''command_outputs/output.txt''" and cwd = None]
    run_command_output_file [where c = "ustr ''rm -rf /''" and e = base_env and w = w
      and p = "ustr ''command_outputs/output.txt''" and cwd = None]
  show ?thesis
    unfolding w_def [symmetric]
    by (simp add: validate_sleep validate_rm_file validate_rm_rf o s1 s2 p1 p2 r f)
qed

section \<open>Properties of \<open>run_ai_command\<close>\<close>

lemma dropWhile_all: "list_all P s \<Longrightarrow> dropWhile P s = []"
  by (induction s) auto

lemma strip_backticks_only: "list_all (\<lambda>c. c = backtick) s \<Longrightarrow> strip_backticks s = []"
  by (simp add: strip_backticks_def dropWhile_all)

lemma strip_backticks_plain:
  "s \<noteq> [] \<Longrightarrow> hd s \<noteq> backtick \<Longrightarrow> last s \<noteq> backtick \<Longrightarrow> strip_backticks s = s"
proof -
  assume s: "s \<noteq> []" and h: "hd s \<noteq> backtick" and l: "last s \<noteq> backtick"
  from s h have 1: "dropWhile (\<lambda>c. c = backtick) s = s"
    by (cases s) auto
  from s l have 2: "dropWhile (\<lambda>c. c = backtick) (rev s) = rev s"
    by (cases "rev s") (auto simp: last_rev [symmetric] hd_rev)
  from 1 2 show ?thesis by (simp add: strip_backticks_def)
qed

lemma loads_sleep: "json_loads base_env sleep_text = Inr sleep_json"
  by (simp add: base_env_def decode_table_def replies_def)

lemmas text_defs = sleep_text_def ls_text_def rm_text_def null_name_text_def script_text_def
  backticks_text_def no_content_text_def

lemma loads_ls: "json_loads base_env ls_text = Inr ls_json"
  by (simp add: base_env_def decode_table_def replies_def text_defs)

lemma loads_rm: "json_loads base_env rm_text = Inr rm_json"
  by (simp add: base_env_def decode_table_def replies_def text_defs)

lemma loads_null_name: "json_loads base_env null_name_text = Inr null_name_json"
  by (simp add: base_env_def decode_table_def replies_def text_defs)

lemma loads_script: "json_loads base_env script_text = Inr script_json"
  by (simp add: base_env_def decode_table_def replies_def text_defs)

lemma loads_backticks: "json_loads base_env backticks_text = Inr backticks_json"
  by (simp add: base_env_def decode_table_def replies_def text_defs)

lemma loads_no_content: "json_loads base_env no_content_text = Inr (JObj no_content_fields)"
  by (simp add: base_env_def decode_table_def replies_def text_defs)

lemma sanitize_output_txt: "sanitize_filename t (ustr ''output.txt'') = ustr ''output.txt''"
  by (simp add: sanitize_filename_def basename_def slash_def re_word_def ascii_alnum_def
      dot_def hyphen_def underscore_def ustr_def)

lemma params_sleep:
  "command_params e sleep_json = Inr (ustr ''sleep 400'', ustr ''output.txt'', JStr [], JBool True)"
proof -
  have "strip_backticks (ustr ''sleep 400'') = ustr ''sleep 400''"
    by (rule strip_backticks_plain) (simp_all add: ustr_def backtick_def)
  then show ?thesis
    by (simp add: command_params_def sleep_json_def sanitize_output_txt)
qed

lemma params_rm:
  "command_params e rm_json = Inr (ustr ''rm -rf /'', ustr ''output.txt'', JStr [], JBool True)"
proof -
  have "strip_backticks (ustr ''rm -rf /'') = ustr ''rm -rf /''"
    by (rule strip_backticks_plain) (simp_all add: ustr_def backtick_def)
  then show ?thesis
    by (simp add: command_params_def rm_json_def sanitize_output_txt)
qed

lemma params_ls:
  "command_params e ls_json = Inr (ustr ''ls -la'', ustr ''output.txt'', JStr [], JBool False)"
proof -
  have "strip_backticks (ustr ''ls -la'') = ustr ''ls -la''"
    by (rule strip_backticks_plain) (simp_all add: ustr_def backtick_def)
  then show ?thesis
    by (simp add: command_params_def ls_json_def sanitize_output_txt)
qed

lemma run_ai_command_failure:
  assumes "json_loads e response = Inr data"
    and "command_params e data = Inr (c, name, f, cont)"
    and "c \<noteq> []"
    and "\<not> fst (run_command e c (ustr ''command_outputs/'' @ name) None w)"
  shows "run_ai_command e response w =
           (Inr (ustr ''Error executing command: '' @ c),
            snd (run_command e c (ustr ''command_outputs/'' @ name) None w))"
proof -
  obtain ok w1 where r: "run_command e c (ustr ''command_outputs/'' @ name) None w = (ok, w1)"
    by (cases "run_command e c (ustr ''command_outputs/'' @ name) None w")
  with assms have "\<not> ok" by simp
  with assms r show ?thesis
    by (simp add: run_ai_command_def Let_def)
qed

lemma run_ai_command_sleep:
  "run_ai_command base_env sleep_text empty_world =
     (Inr (ustr ''Error executing command: '' @ ustr ''sleep 400''),
      snd (run_command base_env (ustr ''sleep 400'') (ustr ''command_outputs/'' @ ustr ''output.txt'')
             None empty_world))"
  by (rule run_ai_command_failure [OF loads_sleep params_sleep])
     (simp_all add: run_command_sleep)

lemma run_ai_command_rm:
  "run_ai_command base_env rm_text empty_world =
     (Inr (ustr ''Error executing command: '' @ ustr ''rm -rf /''),
      snd (run_command base_env (ustr ''rm -rf /'') (ustr ''command_outputs/'' @ ustr ''output.txt'')
             None empty_world))"
  by (rule run_ai_command_failure [OF loads_rm params_rm])
     (simp_all add: run_command_rm)

text \<open>
  Claim C4, as the specification states it: a blocked command gives its caller an
  outcome distinct from a generic execution failure. On the code the two are the same:
  \<open>run_command\<close> returns \<open>False\<close> for the blocked \<open>rm -rf /\<close> as for the timed-out
  \<open>sleep 400\<close>, and \<open>run_ai_command\<close> returns the same \<open>Error executing command:\<close> string
  for both.
\<close>

theorem blocked_outcome_counterexample:
  "fst (run_command base_env (ustr ''rm -rf /'') (ustr ''command_outputs/output.txt'') None empty_world)
     = fst (run_command base_env (ustr ''sleep 400'') (ustr ''command_outputs/output.txt'') None
              empty_world)
   \<and> fst (run_ai_command base_env rm_text empty_world)
     = Inr (ustr ''Error executing command: '' @ ustr ''rm -rf /'')
   \<and> fst (run_ai_command base_env sleep_text empty_world)
     = Inr (ustr ''Error executing command: '' @ ustr ''sleep 400'')"
  by (simp add: run_ai_command_sleep run_ai_command_rm run_command_rm run_command_sleep)

text \<open>
  Claim C4, amended: for every command that matches a pattern of the deny list,
  \<open>run_command\<close> refuses to execute it: it returns \<open>False\<close>, asks for no process, leaves
  every file as it was and logs a line of its own, \<open>Potentially dangerous command
  blocked\<close>. Its caller \<open>run_ai_command\<close> returns \<open>Error executing command:\<close> and the command
  whenever \<open>run_command\<close> returns \<open>False\<close>, for a blocked command as for a spawn error
  or a timeout.
\<close>

theorem blocked_command_refused:
  "(\<not> validate_command c \<longrightarrow>
      fst (run_command e c p cwd w) = False
      \<and> spawned (snd (run_command e c p cwd w)) = spawned w
      \<and> running (snd (run_command e c p cwd w)) = running w
      \<and> files (snd (run_command e c p cwd w)) = files w
      \<and> error_log (snd (run_command e c p cwd w))
          = error_log w @ [ustr ''Potentially dangerous command blocked: '' @ c])
   \<and> (json_loads e response = Inr data \<and> command_params e data = Inr (c, name, f, cont) \<and> c \<noteq> []
        \<and> \<not> fst (run_command e c (ustr ''command_outputs/'' @ name) None w)
      \<longrightarrow> fst (run_ai_command e response w) = Inr (ustr ''Error executing command: '' @ c))"
  by (simp add: run_command_blocked log_error_def run_ai_command_failure)

theorem blocked_command_refused_witness:
  "\<not> validate_command (ustr ''rm -rf /'')
   \<and> json_loads base_env rm_text = Inr rm_json
   \<and> command_params base_env rm_json = Inr (ustr ''rm -rf /'', ustr ''output.txt'', JStr [], JBool True)
   \<and> ustr ''rm -rf /'' \<noteq> []
   \<and> \<not> fst (run_command base_env (ustr ''rm -rf /'') (ustr ''command_outputs/'' @ ustr ''output.txt'')
              None empty_world)
   \<and> spawned (snd (run_command base_env (ustr ''rm -rf /'')
                      (ustr ''command_outputs/'' @ ustr ''output.txt'') None empty_world)) = []
   \<and> fst (run_ai_command base_env rm_text empty_world)
      = Inr (ustr ''Error executing command: '' @ ustr ''rm -rf /'')"
  using blocked_command_refused [where c = "ustr ''rm -rf /''" and e = base_env
      and p = "ustr ''command_outputs/'' @ ustr ''output.txt''" and cwd = None and w = empty_world
      and response = rm_text and data = rm_json and name = "ustr ''output.txt''" and f = "JStr []"
      and cont = "JBool True"]
  by (simp add: validate_rm_rf loads_rm params_rm) (simp add: empty_world_def)

lemma strip_backticks_Nil [simp]: "strip_backticks [] = []"
  by (simp add: strip_backticks_def)

lemma command_params_no_content_eq:
  assumes "map_of kvs (ustr ''content'') = None
           \<or> (\<exists>s. map_of kvs (ustr ''content'') = Some (JStr s) \<and> list_all (\<lambda>c. c = backtick) s)"
  shows "command_params e (JObj kvs) =
           ebind (fspath (case map_of kvs (ustr ''output_name'') of
                            None \<Rightarrow> JStr (ustr ''output.txt'') | Some v \<Rightarrow> v))
             (\<lambda>name_str. Inr ([], sanitize_filename (uni_alnum e) name_str,
                (case map_of kvs (ustr ''return_to_ai'') of None \<Rightarrow> JStr [] | Some v \<Rightarrow> v),
                (case map_of kvs (ustr ''continue'') of None \<Rightarrow> JBool True | Some v \<Rightarrow> v)))"
  using assms
proof
  assume "map_of kvs (ustr ''content'') = None"
  then show ?thesis by (simp add: command_params_def)
next
  assume "\<exists>s. map_of kvs (ustr ''content'') = Some (JStr s) \<and> list_all (\<lambda>c. c = backtick) s"
  then obtain s where "map_of kvs (ustr ''content'') = Some (JStr s)"
    and "list_all (\<lambda>c. c = backtick) s" by blast
  then show ?thesis by (simp add: command_params_def strip_backticks_only)
qed

lemma fspath_cases: "(\<exists>ex. fspath v = Inl ex) \<or> (\<exists>s. v = JStr s)"
  by (cases v) simp_all

lemma command_params_no_content:
  assumes "map_of kvs (ustr ''content'') = None
           \<or> (\<exists>s. map_of kvs (ustr ''content'') = Some (JStr s) \<and> list_all (\<lambda>c. c = backtick) s)"
  shows "(\<exists>ex. command_params e (JObj kvs) = Inl ex)
         \<or> (\<exists>name f cont. command_params e (JObj kvs) = Inr ([], name, f, cont))"
  unfolding command_params_no_content_eq [OF assms]
  using fspath_cases [of "case map_of kvs (ustr ''output_name'') of
                            None \<Rightarrow> JStr (ustr ''output.txt'') | Some v \<Rightarrow> v"]
  by (elim disjE exE) simp_all

lemma command_params_no_content_str:
  assumes "map_of kvs (ustr ''content'') = None
           \<or> (\<exists>s. map_of kvs (ustr ''content'') = Some (JStr s) \<and> list_all (\<lambda>c. c = backtick) s)"
    and "map_of kvs (ustr ''output_name'') = None
         \<or> (\<exists>n. map_of kvs (ustr ''output_name'') = Some (JStr n))"
  shows "\<exists>name f cont. command_params e (JObj kvs) = Inr ([], name, f, cont)"
  unfolding command_params_no_content_eq [OF assms(1)]
  using assms(2) by (elim disjE exE) simp_all

text \<open>
  Claim C10, as stated: every decoded payload whose content is absent, empty or made of
  backticks only gets the fixed string \<open>No command to execute.\<close>. It fails on a payload
  with an empty content and \<open>"output_name": null\<close>: the output name is sanitized before
  the command is looked at, and \<open>os.path.basename(None)\<close> raises \<open>TypeError\<close>.
\<close>

theorem no_command_counterexample:
  "json_loads base_env null_name_text = Inr null_name_json
   \<and> fst (run_ai_command base_env null_name_text empty_world)
      = Inl (TypeError (ustr ''expected str, bytes or os.PathLike object''))"
  by (simp add: loads_null_name run_ai_command_def command_params_def null_name_json_def)

text \<open>
  Claim C10, amended: for every payload that decodes to an object whose content is
  absent, empty or made of backticks only, \<open>run_ai_command\<close> asks for no process and
  creates or truncates no file (it leaves the world as it was); and when the payload's
  output name is absent or a string, it returns the fixed string
  \<open>No command to execute.\<close>
\<close>

theorem run_ai_command_no_command:
  "json_loads e response = Inr (JObj kvs)
   \<and> (map_of kvs (ustr ''content'') = None
        \<or> (\<exists>s. map_of kvs (ustr ''content'') = Some (JStr s) \<and> list_all (\<lambda>c. c = backtick) s))
   \<longrightarrow> snd (run_ai_command e response w) = w
       \<and> ((map_of kvs (ustr ''output_name'') = None
             \<or> (\<exists>n. map_of kvs (ustr ''output_name'') = Some (JStr n)))
            \<longrightarrow> fst (run_ai_command e response w) = Inr (ustr ''No command to execute.''))"
proof (intro impI conjI; elim conjE)
  assume l: "json_loads e response = Inr (JObj kvs)"
    and c: "map_of kvs (ustr ''content'') = None
        \<or> (\<exists>s. map_of kvs (ustr ''content'') = Some (JStr s) \<and> list_all (\<lambda>c. c = backtick) s)"
  from command_params_no_content [OF c, of e] l
  show "snd (run_ai_command e response w) = w"
    by (auto simp: run_ai_command_def)
next
  assume l: "json_loads e response = Inr (JObj kvs)"
    and c: "map_of kvs (ustr ''content'') = None
        \<or> (\<exists>s. map_of kvs (ustr ''content'') = Some (JStr s) \<and> list_all (\<lambda>c. c = backtick) s)"
    and n: "map_of kvs (ustr ''output_name'') = None
             \<or> (\<exists>n. map_of kvs (ustr ''output_name'') = Some (JStr n))"
  from command_params_no_content_str [OF c n, of e] l
  show "fst (run_ai_command e response w) = Inr (ustr ''No command to execute.'')"
    by (auto simp: run_ai_command_def)
qed

theorem run_ai_command_no_command_witness:
  "json_loads base_env backticks_text = Inr backticks_json
   \<and> map_of [(ustr ''type'', JStr (ustr ''command'')),
              (ustr ''content'', JStr [backtick, backtick, backtick])] (ustr ''content'')
       = Some (JStr [backtick, backtick, backtick])
   \<and> list_all (\<lambda>c. c = backtick) [backtick, backtick, backtick]
   \<and> map_of [(ustr ''type'', JStr (ustr ''command'')),
              (ustr ''content'', JStr [backtick, backtick, backtick])] (ustr ''output_name'') = None
   \<and> run_ai_command base_env backticks_text empty_world
       = (Inr (ustr ''No command to execute.''), empty_world)"
  using run_ai_command_no_command [where e = base_env
      and response = backticks_text and w = empty_world
      and kvs = "[(ustr ''type'', JStr (ustr ''command'')),
                  (ustr ''content'', JStr [backtick, backtick, backtick])]"]
    loads_backticks
  by (simp add: backticks_json_def prod_eq_iff)

section \<open>Properties of \<open>clean_ai_response\<close> and \<open>validate_response\<close>\<close>

lemma strip_fences_no_backtick: "backtick \<notin> set s \<Longrightarrow> strip_fences bol s = s"
  by (induction bol s rule: strip_fences.induct) auto

lemma py_strip_plain:
  "s \<noteq> [] \<Longrightarrow> \<not> is_space (hd s) \<Longrightarrow> \<not> is_space (last s) \<Longrightarrow> py_strip s = s"
proof -
  assume s: "s \<noteq> []" and h: "\<not> is_space (hd s)" and l: "\<not> is_space (last s)"
  from s h have 1: "dropWhile is_space s = s"
    by (cases s) auto
  from s l have 2: "dropWhile is_space (rev s) = rev s"
    by (cases "rev s") (auto simp: last_rev [symmetric] hd_rev)
  from 1 2 show ?thesis by (simp add: py_strip_def)
qed

lemma clean_ai_response_plain:
  assumes "s \<noteq> []" "\<not> is_space (hd s)" "\<not> is_space (last s)" "backtick \<notin> set s"
  shows "clean_ai_response s = s"
  using assms by (simp add: clean_ai_response_def py_strip_plain strip_fences_no_backtick)

lemma clean_sleep: "clean_ai_response sleep_text = sleep_text"
  by (rule clean_ai_response_plain) (simp_all add: sleep_text_def ustr_def is_space_def backtick_def)

lemma clean_ls: "clean_ai_response ls_text = ls_text"
  by (rule clean_ai_response_plain) (simp_all add: ls_text_def ustr_def is_space_def backtick_def)

lemma clean_script: "clean_ai_response script_text = script_text"
  by (rule clean_ai_response_plain) (simp_all add: script_text_def ustr_def is_space_def backtick_def)

lemma clean_no_content: "clean_ai_response no_content_text = no_content_text"
  by (rule clean_ai_response_plain)
     (simp_all add: no_content_text_def ustr_def is_space_def backtick_def)

lemma check_required_obj:
  "check_required fs (JObj kvs) = Inr (\<forall>f \<in> set fs. map_of kvs f \<noteq> None)"
  by (induction fs) auto

lemma validate_response_obj:
  assumes "json_loads e (clean_ai_response response) = Inr (JObj kvs)"
  shows "validate_response e response \<longrightarrow>
           (\<forall>f \<in> set required_fields. map_of kvs f \<noteq> None)
           \<and> (map_of kvs (ustr ''type'') = Some (JStr (ustr ''command''))
                \<or> map_of kvs (ustr ''type'') = Some (JStr (ustr ''script''))
                   \<and> (map_of kvs (ustr ''script_type'') = Some (JStr (ustr ''bash''))
                        \<or> map_of kvs (ustr ''script_type'') = Some (JStr (ustr ''python'')))
                   \<and> map_of kvs (ustr ''script_name'') \<noteq> None)"
  using assms
  by (auto simp: validate_response_def validate_response_try_def check_required_obj
      check_script_fields_def Let_def split: option.splits if_splits)

lemma check_required_arr: "\<exists>b. check_required fs (JArr xs) = Inr b"
  by (induction fs) auto

lemma check_required_str: "\<exists>b. check_required fs (JStr s) = Inr b"
  by (induction fs) auto

lemma validate_response_try_non_object:
  assumes "json_loads e (clean_ai_response response) = Inr v" and "\<forall>kvs. v \<noteq> JObj kvs"
  shows "validate_response_try e response \<noteq> Inr True"
proof (cases v)
  case (JArr xs)
  obtain b where "check_required required_fields (JArr xs) = Inr b"
    using check_required_arr by blast
  with assms JArr show ?thesis
    by (simp add: validate_response_try_def)
next
  case (JStr s)
  obtain b where "check_required required_fields (JStr s) = Inr b"
    using check_required_str by blast
  with assms JStr show ?thesis
    by (simp add: validate_response_try_def)
next
  case (JObj kvs)
  with assms show ?thesis by simp
qed (use assms in \<open>simp_all add: validate_response_try_def required_fields_def\<close>)

lemma validate_response_non_object:
  assumes "\<forall>kvs. json_loads e (clean_ai_response response) \<noteq> Inr (JObj kvs)"
  shows "validate_response e response = False"
proof (cases "json_loads e (clean_ai_response response)")
  case (Inl ex)
  then show ?thesis
    by (simp add: validate_response_def validate_response_try_def split: exn.splits)
next
  case (Inr v)
  with assms have "\<forall>kvs. v \<noteq> JObj kvs" by auto
  from validate_response_try_non_object [OF Inr this] show ?thesis
    by (auto simp: validate_response_def split: sum.splits exn.splits)
qed

text \<open>
  Claim C5, as stated: a script payload whose script name is empty is rejected. On the
  code only the presence of the key is checked: the payload with \<open>"script_name": ""\<close> is
  accepted.
\<close>

theorem empty_script_name_counterexample:
  "json_loads base_env (clean_ai_response script_text) = Inr script_json
   \<and> map_of [(ustr ''type'', JStr (ustr ''script'')), (ustr ''content'', JStr (ustr ''id'')),
              (ustr ''reason'', JStr (ustr ''r'')), (ustr ''continue'', JBool True),
              (ustr ''script_type'', JStr (ustr ''bash'')), (ustr ''script_name'', JStr [])]
        (ustr ''script_name'') = Some (JStr [])
   \<and> validate_response base_env script_text = True"
  by (simp add: clean_script loads_script validate_response_def validate_response_try_def
      script_json_def required_fields_def check_script_fields_def check_knowledge_ref_def)

text \<open>
  Claim C5, amended: of the payloads that decode to an object, \<open>validate_response\<close> rejects
  every one that lacks one of the fields \<open>type\<close>, \<open>content\<close>, \<open>reason\<close>, \<open>continue\<close>, every
  one whose type is neither \<open>command\<close> nor \<open>script\<close>, and every one of type \<open>script\<close> whose
  script type is not \<open>bash\<close> or \<open>python\<close> or that has no \<open>script_name\<close> key; and it rejects
  every payload that does not decode to an object at all. (A script name that is present
  but empty is accepted.)
\<close>

theorem validate_response_rejects:
  "(json_loads e (clean_ai_response response) = Inr (JObj kvs) \<longrightarrow>
     ((\<exists>f \<in> set required_fields. map_of kvs f = None) \<longrightarrow> validate_response e response = False)
     \<and> (map_of kvs (ustr ''type'') \<noteq> Some (JStr (ustr ''command''))
          \<and> map_of kvs (ustr ''type'') \<noteq> Some (JStr (ustr ''script''))
        \<longrightarrow> validate_response e response = False)
     \<and> (map_of kvs (ustr ''type'') = Some (JStr (ustr ''script''))
          \<and> map_of kvs (ustr ''script_type'') \<noteq> Some (JStr (ustr ''bash''))
          \<and> map_of kvs (ustr ''script_type'') \<noteq> Some (JStr (ustr ''python''))
        \<longrightarrow> validate_response e response = False)
     \<and> (map_of kvs (ustr ''type'') = Some (JStr (ustr ''script''))
          \<and> map_of kvs (ustr ''script_name'') = None
        \<longrightarrow> validate_response e response = False))
   \<and> ((\<forall>fields. json_loads e (clean_ai_response response) \<noteq> Inr (JObj fields))
        \<longrightarrow> validate_response e response = False)"
proof (intro conjI impI)
  assume "\<forall>fields. json_loads e (clean_ai_response response) \<noteq> Inr (JObj fields)"
  then show "validate_response e response = False"
    by (rule validate_response_non_object)
next
  assume l: "json_loads e (clean_ai_response response) = Inr (JObj kvs)"
  note v = validate_response_obj [OF l]
  {
    assume "\<exists>f \<in> set required_fields. map_of kvs f = None"
    with v show "validate_response e response = False" by auto
  next
    assume "map_of kvs (ustr ''type'') \<noteq> Some (JStr (ustr ''command''))
          \<and> map_of kvs (ustr ''type'') \<noteq> Some (JStr (ustr ''script''))"
    with v show "validate_response e response = False" by auto
  next
    assume "map_of kvs (ustr ''type'') = Some (JStr (ustr ''script''))
          \<and> map_of kvs (ustr ''script_type'') \<noteq> Some (JStr (ustr ''bash''))
          \<and> map_of kvs (ustr ''script_type'') \<noteq> Some (JStr (ustr ''python''))"
    with v show "validate_response e response = False" by auto
  next
    assume "map_of kvs (ustr ''type'') = Some (JStr (ustr ''script''))
          \<and> map_of kvs (ustr ''script_name'') = None"
    with v show "validate_response e response = False" by auto
  }
qed

theorem validate_response_rejects_witness:
  "json_loads base_env (clean_ai_response no_content_text) = Inr (JObj no_content_fields)
   \<and> ustr ''content'' \<in> set required_fields
   \<and> map_of no_content_fields (ustr ''content'') = None
   \<and> validate_response base_env no_content_text = False"
  using validate_response_rejects [where e = base_env and response = no_content_text
      and kvs = no_content_fields]
  by (auto simp: clean_no_content loads_no_content required_fields_def no_content_fields_def)

section \<open>Properties of the control loop\<close>

declare run_loop.simps [simp del]

lemma run_command_prompts: "prompts (snd (run_command e c p cwd w)) = prompts w"
  by (simp add: run_command_def Let_def log_error_def
      split: option.splits sum.splits child.splits)

lemma filter_output_prompts: "prompts (snd (filter_output e f wd w)) = prompts w"
  by (simp add: filter_output_def Let_def split: sum.splits exn.splits completed.splits)

lemma run_ai_command_prompts: "prompts (snd (run_ai_command e r w)) = prompts w"
proof -
  have a: "\<And>c p ok w1. run_command e c p None w = (ok, w1) \<Longrightarrow> prompts w1 = prompts w"
    using run_command_prompts [of e _ _ None w] by (metis snd_conv)
  have b: "\<And>f wd w1 x w2. filter_output e f wd w1 = (x, w2) \<Longrightarrow> prompts w2 = prompts w1"
    using filter_output_prompts by (metis snd_conv)
  show ?thesis
    by (auto simp: run_ai_command_def Let_def dest!: a b
        split: sum.splits exn.splits prod.splits if_splits)
qed

lemma run_script_prompts: "prompts (snd (run_script e r w)) = prompts w"
proof -
  have a: "\<And>c p cwd w0 ok w1. run_command e c p cwd w0 = (ok, w1) \<Longrightarrow> prompts w1 = prompts w0"
    using run_command_prompts by (metis snd_conv)
  have b: "\<And>f wd w1 x w2. filter_output e f wd w1 = (x, w2) \<Longrightarrow> prompts w2 = prompts w1"
    using filter_output_prompts by (metis snd_conv)
  show ?thesis
    by (auto simp: run_script_def Let_def dest!: a b
        split: sum.splits exn.splits prod.splits if_splits option.splits)
qed

lemma execute_ai_command_prompts: "prompts (snd (execute_ai_command e r w)) = prompts w"
proof -
  have a: "\<And>t x w1. run_ai_command e t w = (x, w1) \<Longrightarrow> prompts w1 = prompts w"
    using run_ai_command_prompts by (metis snd_conv)
  have b: "\<And>t x w1. run_script e t w = (x, w1) \<Longrightarrow> prompts w1 = prompts w"
    using run_script_prompts by (metis snd_conv)
  show ?thesis
    by (auto simp: execute_ai_command_def Let_def dest!: a b
        split: sum.splits prod.splits if_splits)
qed

lemma run_loop_retry:
  assumes "iteration a < max_iterations a"
    and "chat e w (context a) = None \<or> chat e w (context a) = Some []"
  shows "run_loop e a w =
           run_loop e (a\<lparr>iteration := iteration a + 1\<rparr>) (w\<lparr>prompts := prompts w @ [context a]\<rparr>)"
  using assms by (subst run_loop.simps) (auto simp: Let_def)

lemma run_loop_invariants:
  "iteration a \<le> iteration (fst (run_loop e a w))
   \<and> max_iterations (fst (run_loop e a w)) = max_iterations a
   \<and> (iteration a \<le> max_iterations a \<longrightarrow> iteration (fst (run_loop e a w)) \<le> max_iterations a)
   \<and> length (prompts (snd (run_loop e a w)))
       = length (prompts w) + (iteration (fst (run_loop e a w)) - iteration a)"
proof (induction e a w rule: run_loop.induct)
  case (1 e a w)
  show ?case
  proof (cases "iteration a < max_iterations a")
    case False
    then show ?thesis by (subst (1 2 3 4 5) run_loop.simps) simp
  next
    case True
    define a1 where "a1 = a\<lparr>iteration := iteration a + 1\<rparr>"
    define w1 where "w1 = w\<lparr>prompts := prompts w @ [context a]\<rparr>"
    show ?thesis
    proof (cases "chat e w (context a) = None \<or> chat e w (context a) = Some []")
      case retry: True
      have eq: "run_loop e a w = run_loop e a1 w1"
        unfolding a1_def w1_def by (rule run_loop_retry [OF True retry])
      from retry have ih: "iteration a1 \<le> iteration (fst (run_loop e a1 w1))
         \<and> max_iterations (fst (run_loop e a1 w1)) = max_iterations a1
         \<and> (iteration a1 \<le> max_iterations a1 \<longrightarrow> iteration (fst (run_loop e a1 w1)) \<le> max_iterations a1)
         \<and> length (prompts (snd (run_loop e a1 w1)))
             = length (prompts w1) + (iteration (fst (run_loop e a1 w1)) - iteration a1)"
      proof
        assume n: "chat e w (context a) = None"
        show ?thesis
          by (rule "1.IH"(1) [where x = a1 and xb = w1 and xa = "chat e w (context a1)"])
             (simp_all add: True a1_def w1_def n)
      next
        assume n: "chat e w (context a) = Some []"
        show ?thesis
          by (rule "1.IH"(2) [where x = a1 and xb = w1 and xa = "chat e w (context a1)"
                and ?x2.0 = "[]"])
             (simp_all add: True a1_def w1_def n)
      qed
      with True show ?thesis unfolding eq by (auto simp: a1_def w1_def)
    next
      case reply: False
      then obtain r where r: "chat e w (context a) = Some r" "r \<noteq> []" by auto
      obtain out w2 where x: "execute_ai_command e r w1 = (out, w2)"
        by (cases "execute_ai_command e r w1")
      from execute_ai_command_prompts [of e r w1] x have p2: "prompts w2 = prompts w1" by simp
      show ?thesis
      proof (cases "out = None \<or> oracle_says_stop e r")
        case stop: True
        with True r x have "run_loop e a w = (a1, w2)"
          by (subst run_loop.simps) (auto simp: Let_def a1_def w1_def split: option.splits)
        with True p2 show ?thesis by (simp add: a1_def w1_def)
      next
        case go: False
        then obtain outp where o: "out = Some outp" by auto
        define a2 where "a2 = a1\<lparr>context := update_context (context a1) outp\<rparr>"
        from True r x o go have eq: "run_loop e a w = run_loop e a2 w2"
          by (subst run_loop.simps) (auto simp: Let_def a1_def w1_def a2_def)
        have ih: "iteration a2 \<le> iteration (fst (run_loop e a2 w2))
           \<and> max_iterations (fst (run_loop e a2 w2)) = max_iterations a2
           \<and> (iteration a2 \<le> max_iterations a2 \<longrightarrow> iteration (fst (run_loop e a2 w2)) \<le> max_iterations a2)
           \<and> length (prompts (snd (run_loop e a2 w2)))
               = length (prompts w2) + (iteration (fst (run_loop e a2 w2)) - iteration a2)"
          unfolding a2_def
          by (rule "1.IH"(3) [where x = a1 and xb = w1 and xa = "chat e w (context a1)"
                and ?x2.0 = r and xaa = out and y = w2 and x2a = outp])
             (use True r x o go in \<open>simp_all add: a1_def w1_def\<close>)
        with True p2 show ?thesis unfolding eq by (auto simp: a1_def w1_def a2_def)
      qed
    qed
  qed
qed

lemma run_loop_silent:
  assumes "\<forall>w c. chat e w c = None"
  shows "iteration (fst (run_loop e a w)) = max (iteration a) (max_iterations a)"
  using assms
proof (induction e a w rule: run_loop.induct)
  case (1 e a w)
  note silent = "1.prems"
  show ?case
  proof (cases "iteration a < max_iterations a")
    case False
    then show ?thesis by (subst run_loop.simps) simp
  next
    case True
    define a1 where "a1 = a\<lparr>iteration := iteration a + 1\<rparr>"
    define w1 where "w1 = w\<lparr>prompts := prompts w @ [context a]\<rparr>"
    have eq: "run_loop e a w = run_loop e a1 w1"
      unfolding a1_def w1_def by (rule run_loop_retry [OF True]) (simp add: silent)
    have "iteration (fst (run_loop e a1 w1)) = max (iteration a1) (max_iterations a1)"
      by (rule "1.IH"(1) [where x = a1 and xb = w1 and xa = "chat e w (context a1)"])
         (simp_all add: True a1_def w1_def silent)
    with True show ?thesis unfolding eq by (simp add: a1_def)
  qed
qed

text \<open>
  Claim C9: in every run of the loop the iteration counter only grows and never passes
  \<open>max_iterations\<close>; every turn asks the oracle once, so the number of turns is the
  growth of the counter, at most 50 in a run from the initial state; and a turn in which
  the oracle's reply is absent or empty does not end the run: the loop goes on with the
  next turn, the context unchanged and the counter one higher.
\<close>

theorem run_loop_bounded:
  "iteration a \<le> iteration (fst (run_loop e a w))
   \<and> (iteration a \<le> max_iterations a \<longrightarrow> iteration (fst (run_loop e a w)) \<le> max_iterations a)
   \<and> length (prompts (snd (run_loop e a w)))
       = length (prompts w) + (iteration (fst (run_loop e a w)) - iteration a)
   \<and> (iteration a < max_iterations a
        \<and> (chat e w (context a) = None \<or> chat e w (context a) = Some [])
      \<longrightarrow> run_loop e a w =
            run_loop e (a\<lparr>iteration := iteration a + 1\<rparr>) (w\<lparr>prompts := prompts w @ [context a]\<rparr>))
   \<and> iteration (fst (run e target_line guide_line init_automation w)) \<le> 50
   \<and> length (prompts (snd (run e target_line guide_line init_automation w)))
       \<le> length (prompts w) + 50"
proof (intro conjI)
  show "iteration a \<le> iteration (fst (run_loop e a w))"
    using run_loop_invariants [of a e w] by simp
  show "iteration a \<le> max_iterations a \<longrightarrow> iteration (fst (run_loop e a w)) \<le> max_iterations a"
    using run_loop_invariants [of a e w] by simp
  show "length (prompts (snd (run_loop e a w)))
       = length (prompts w) + (iteration (fst (run_loop e a w)) - iteration a)"
    using run_loop_invariants [of a e w] by simp
  show "iteration a < max_iterations a
        \<and> (chat e w (context a) = None \<or> chat e w (context a) = Some [])
      \<longrightarrow> run_loop e a w =
            run_loop e (a\<lparr>iteration := iteration a + 1\<rparr>) (w\<lparr>prompts := prompts w @ [context a]\<rparr>)"
    using run_loop_retry [of a e w] by blast
  show "iteration (fst (run e target_line guide_line init_automation w)) \<le> 50"
  proof (cases "get_target_info target_line guide_line")
    case None
    then show ?thesis by (simp add: run_def init_automation_def)
  next
    case (Some c)
    with run_loop_invariants [of "init_automation\<lparr>context := c\<rparr>" e w] show ?thesis
      by (simp add: run_def init_automation_def)
  qed
  show "length (prompts (snd (run e target_line guide_line init_automation w)))
       \<le> length (prompts w) + 50"
  proof (cases "get_target_info target_line guide_line")
    case None
    then show ?thesis by (simp add: run_def)
  next
    case (Some c)
    with run_loop_invariants [of "init_automation\<lparr>context := c\<rparr>" e w] show ?thesis
      by (simp add: run_def init_automation_def)
  qed
qed

theorem run_loop_bounded_witness:
  "iteration init_automation < max_iterations init_automation
   \<and> chat base_env empty_world (context init_automation) = None
   \<and> run_loop base_env init_automation empty_world
       = run_loop base_env (init_automation\<lparr>iteration := iteration init_automation + 1\<rparr>)
           (empty_world\<lparr>prompts := prompts empty_world @ [context init_automation]\<rparr>)
   \<and> iteration init_automation \<le> max_iterations init_automation
   \<and> iteration (fst (run_loop base_env init_automation empty_world)) = 50"
proof -
  have c: "\<forall>w c. chat base_env w c = None" by (simp add: base_env_def)
  have "iteration init_automation < max_iterations init_automation"
    by (simp add: init_automation_def)
  with run_loop_bounded [of init_automation base_env empty_world] c
    run_loop_silent [OF c, of init_automation empty_world]
  show ?thesis by (simp add: init_automation_def)
qed

section \<open>The loop after a failed execution\<close>

lemma execute_ai_command_failure:
  assumes "validate_response e (clean_ai_response r)"
    and "json_loads e (clean_ai_response r) = Inr data"
    and "py_get data (ustr ''type'') JNull = Inr (JStr (ustr ''command''))"
    and "command_params e data = Inr (c, name, f, cont)"
    and "c \<noteq> []"
    and "\<not> fst (run_command e c (ustr ''command_outputs/'' @ name) None w)"
  shows "execute_ai_command e r w =
           (Some (ustr ''Error executing command: '' @ c),
            snd (run_command e c (ustr ''command_outputs/'' @ name) None w))"
  using assms run_ai_command_failure [OF assms(2) assms(4) assms(5) assms(6)]
  by (simp add: execute_ai_command_def Let_def)

text \<open>
  When \<open>run_command\<close> fails on the command of a turn and the payload does not tell to
  stop, the loop does not end: it goes on with the next turn, the error string folded
  into the context.
\<close>

lemma run_loop_after_failure:
  assumes "iteration a < max_iterations a"
    and "chat e w (context a) = Some r" and "r \<noteq> []"
    and "validate_response e (clean_ai_response r)"
    and "json_loads e (clean_ai_response r) = Inr data"
    and "py_get data (ustr ''type'') JNull = Inr (JStr (ustr ''command''))"
    and "command_params e data = Inr (c, name, f, cont)"
    and "c \<noteq> []"
    and "\<not> fst (run_command e c (ustr ''command_outputs/'' @ name) None
                  (w\<lparr>prompts := prompts w @ [context a]\<rparr>))"
    and "\<not> oracle_says_stop e r"
  shows "run_loop e a w =
           run_loop e
             (a\<lparr>iteration := iteration a + 1,
                context := update_context (context a) (ustr ''Error executing command: '' @ c)\<rparr>)
             (snd (run_command e c (ustr ''command_outputs/'' @ name) None
                     (w\<lparr>prompts := prompts w @ [context a]\<rparr>)))"
  using assms(1,2,3,10)
    execute_ai_command_failure [OF assms(4) assms(5) assms(6) assms(7) assms(8) assms(9)]
  by (subst run_loop.simps) (simp add: Let_def)

lemma run_loop_stop_turn:
  assumes "iteration a < max_iterations a"
    and "chat e w (context a) = Some r" and "r \<noteq> []"
    and "execute_ai_command e r (w\<lparr>prompts := prompts w @ [context a]\<rparr>) = (Some out, w2)"
    and "oracle_says_stop e r"
  shows "run_loop e a w = (a\<lparr>iteration := iteration a + 1\<rparr>, w2)"
  using assms by (subst run_loop.simps) (simp add: Let_def)

lemma run_command_hangs:
  assumes "validate_command c" "open_w e w p = None" "shlex_split e c = Inr argv"
    and "popen e (w\<lparr>files := (files w)(p \<mapsto> [])\<rparr>) argv p cwd = Hangs left"
  shows "run_command e c p cwd w =
           (False, w\<lparr>files := left,
                     spawned := spawned w @ [Exec argv cwd],
                     running := running w @ [Exec argv cwd],
                     error_log := error_log w @ [ustr ''Command timed out: '' @ c]\<rparr>)"
  using assms by (simp add: run_command_def Let_def run_command_except_def log_error_def)

lemma run_command_exits:
  assumes "validate_command c" "open_w e w p = None" "shlex_split e c = Inr argv"
    and "popen e (w\<lparr>files := (files w)(p \<mapsto> [])\<rparr>) argv p cwd = Exits left status"
  shows "run_command e c p cwd w =
           (True, w\<lparr>files := left, spawned := spawned w @ [Exec argv cwd]\<rparr>)"
  using assms by (simp add: run_command_def Let_def)

lemma validate_sleep_payload:
  "json_loads e sleep_text = Inr sleep_json \<Longrightarrow> validate_response e sleep_text"
  by (simp add: validate_response_def validate_response_try_def clean_sleep sleep_json_def
      required_fields_def check_knowledge_ref_def)

lemma validate_ls_payload:
  "json_loads e ls_text = Inr ls_json \<Longrightarrow> validate_response e ls_text"
  by (simp add: validate_response_def validate_response_try_def clean_ls ls_json_def
      required_fields_def check_knowledge_ref_def)

lemma two_turn_fields [simp]:
  "json_loads two_turn_env = json_loads base_env"
  "open_w two_turn_env = open_w base_env"
  "shlex_split two_turn_env = shlex_split base_env"
  "popen two_turn_env = popen base_env"
  "chat two_turn_env w c = (if prompts w = [] then Some sleep_text else Some ls_text)"
  by (simp_all add: two_turn_env_def)

lemma words_ls: "words_of [] (ustr ''ls -la'') = [ustr ''ls'', ustr ''-la'']"
  by (simp add: ustr_def)

lemma target_info:
  "get_target_info (ustr ''example.com'') [] =
     Some (ustr ''Target: '' @ ustr ''example.com'' @ [newline] @ ustr ''Additional context: ''
           @ ustr ''No additional guidance'')"
proof -
  have "py_strip (ustr ''example.com'') = ustr ''example.com''"
    by (rule py_strip_plain) (simp_all add: ustr_def is_space_def)
  moreover have "py_strip [] = []" by (simp add: py_strip_def)
  ultimately show ?thesis by (simp add: get_target_info_def Let_def)
qed

lemma sleep_turn_fails:
  "run_command two_turn_env (ustr ''sleep 400'') (ustr ''command_outputs/'' @ ustr ''output.txt'') None w =
     (False, w\<lparr>files := (files w)(ustr ''command_outputs/'' @ ustr ''output.txt'' \<mapsto> []),
               spawned := spawned w @ [Exec [ustr ''sleep'', ustr ''400''] None],
               running := running w @ [Exec [ustr ''sleep'', ustr ''400''] None],
               error_log := error_log w @ [ustr ''Command timed out: '' @ ustr ''sleep 400'']\<rparr>)"
  by (rule run_command_hangs) (simp_all add: validate_sleep base_env_def words_sleep)

lemma ls_turn_runs:
  "run_command two_turn_env (ustr ''ls -la'') (ustr ''command_outputs/'' @ ustr ''output.txt'') None w =
     (True, w\<lparr>files := (files w)(ustr ''command_outputs/'' @ ustr ''output.txt'' \<mapsto> ustr ''done''),
              spawned := spawned w @ [Exec [ustr ''ls'', ustr ''-la''] None]\<rparr>)"
  by (rule run_command_exits [where status = 0])
     (simp_all add: validate_ls base_env_def words_ls)

lemma ls_turn_executes:
  "execute_ai_command two_turn_env ls_text w =
     (Some (ustr ''Stopping as requested.''),
      w\<lparr>files := (files w)(ustr ''command_outputs/'' @ ustr ''output.txt'' \<mapsto> ustr ''done''),
        spawned := spawned w @ [Exec [ustr ''ls'', ustr ''-la''] None]\<rparr>)"
proof -
  have v: "validate_response two_turn_env ls_text"
    by (rule validate_ls_payload) (simp add: loads_ls)
  have r: "run_ai_command two_turn_env ls_text w =
     (Inr (ustr ''Stopping as requested.''),
      w\<lparr>files := (files w)(ustr ''command_outputs/'' @ ustr ''output.txt'' \<mapsto> ustr ''done''),
        spawned := spawned w @ [Exec [ustr ''ls'', ustr ''-la''] None]\<rparr>)"
    by (simp add: run_ai_command_def loads_ls params_ls ls_turn_runs)
  show ?thesis
    by (simp add: execute_ai_command_def clean_ls v loads_ls r ls_json_def)
qed

text \<open>
  Claim C2 at a run whose first turn fails outright: the oracle first asks for
  \<open>sleep 400\<close>, which outlives the timeout, so that \<open>run_command\<close> returns \<open>False\<close>. The run
  does not stop there: a second turn is executed, in which \<open>ls -la\<close> is spawned, and the
  run ends after two iterations, on the oracle's word.
\<close>

theorem failed_execution_not_fatal:
  "fst (run_command two_turn_env (ustr ''sleep 400'') (ustr ''command_outputs/'' @ ustr ''output.txt'')
         None (empty_world\<lparr>prompts := [ustr ''Target: '' @ ustr ''example.com'' @ [newline]
            @ ustr ''Additional context: '' @ ustr ''No additional guidance'']\<rparr>)) = False
   \<and> iteration (fst (run two_turn_env (ustr ''example.com'') [] init_automation empty_world)) = 2
   \<and> spawned (snd (run two_turn_env (ustr ''example.com'') [] init_automation empty_world))
       = [Exec [ustr ''sleep'', ustr ''400''] None, Exec [ustr ''ls'', ustr ''-la''] None]
   \<and> error_log (snd (run two_turn_env (ustr ''example.com'') [] init_automation empty_world))
       = [ustr ''Command timed out: '' @ ustr ''sleep 400'']
   \<and> length (prompts (snd (run two_turn_env (ustr ''example.com'') [] init_automation empty_world)))
       = 2"
proof -
  define ctx0 where "ctx0 = ustr ''Target: '' @ ustr ''example.com'' @ [newline]
            @ ustr ''Additional context: '' @ ustr ''No additional guidance''"
  define a0 where "a0 = init_automation\<lparr>context := ctx0\<rparr>"
  define w1 where "w1 = empty_world\<lparr>prompts := [ctx0]\<rparr>"
  define w2 where "w2 = snd (run_command two_turn_env (ustr ''sleep 400'')
                               (ustr ''command_outputs/'' @ ustr ''output.txt'') None w1)"
  define a1 where "a1 = a0\<lparr>iteration := iteration a0 + 1,
       context := update_context (context a0) (ustr ''Error executing command: '' @ ustr ''sleep 400'')\<rparr>"
  have w2: "w2 = w1\<lparr>files := (files w1)(ustr ''command_outputs/'' @ ustr ''output.txt'' \<mapsto> []),
               spawned := spawned w1 @ [Exec [ustr ''sleep'', ustr ''400''] None],
               running := running w1 @ [Exec [ustr ''sleep'', ustr ''400''] None],
               error_log := error_log w1 @ [ustr ''Command timed out: '' @ ustr ''sleep 400'']\<rparr>"
    by (simp add: w2_def sleep_turn_fails)
  have run: "run two_turn_env (ustr ''example.com'') [] init_automation empty_world
               = run_loop two_turn_env a0 empty_world"
    by (simp add: run_def target_info a0_def ctx0_def)
  have "run_loop two_turn_env a0 empty_world =
          run_loop two_turn_env
            (a0\<lparr>iteration := iteration a0 + 1,
                context := update_context (context a0)
                             (ustr ''Error executing command: '' @ ustr ''sleep 400'')\<rparr>)
            (snd (run_command two_turn_env (ustr ''sleep 400'')
                    (ustr ''command_outputs/'' @ ustr ''output.txt'') None
                    (empty_world\<lparr>prompts := prompts empty_world @ [context a0]\<rparr>)))"
  proof (rule run_loop_after_failure [where r = sleep_text and data = sleep_json and f = "JStr []"
          and cont = "JBool True"])
    show "iteration a0 < max_iterations a0"
      by (simp add: a0_def init_automation_def)
    show "chat two_turn_env empty_world (context a0) = Some sleep_text"
      by (simp add: empty_world_def)
    show "sleep_text \<noteq> []"
      by (simp add: sleep_text_def)
    show "validate_response two_turn_env (clean_ai_response sleep_text)"
      unfolding clean_sleep by (rule validate_sleep_payload) (simp add: loads_sleep)
    show "json_loads two_turn_env (clean_ai_response sleep_text) = Inr sleep_json"
      by (simp add: clean_sleep loads_sleep)
    show "py_get sleep_json (ustr ''type'') JNull = Inr (JStr (ustr ''command''))"
      by (simp add: sleep_json_def)
    show "command_params two_turn_env sleep_json =
            Inr (ustr ''sleep 400'', ustr ''output.txt'', JStr [], JBool True)"
      by (rule params_sleep)
    show "ustr ''sleep 400'' \<noteq> []"
      by simp
    show "\<not> fst (run_command two_turn_env (ustr ''sleep 400'')
                   (ustr ''command_outputs/'' @ ustr ''output.txt'') None
                   (empty_world\<lparr>prompts := prompts empty_world @ [context a0]\<rparr>))"
      by (simp add: sleep_turn_fails)
    show "\<not> oracle_says_stop two_turn_env sleep_text"
      by (simp add: oracle_says_stop_def clean_sleep loads_sleep sleep_json_def)
  qed
  then have turn1: "run_loop two_turn_env a0 empty_world = run_loop two_turn_env a1 w2"
    by (simp add: a1_def w2_def w1_def a0_def empty_world_def)
  have turn2: "run_loop two_turn_env a1 w2 =
      (a1\<lparr>iteration := iteration a1 + 1\<rparr>,
       (w2\<lparr>prompts := prompts w2 @ [context a1]\<rparr>)
         \<lparr>files := (files (w2\<lparr>prompts := prompts w2 @ [context a1]\<rparr>))
                    (ustr ''command_outputs/'' @ ustr ''output.txt'' \<mapsto> ustr ''done''),
          spawned := spawned (w2\<lparr>prompts := prompts w2 @ [context a1]\<rparr>)
                     @ [Exec [ustr ''ls'', ustr ''-la''] None]\<rparr>)"
  proof (rule run_loop_stop_turn [where r = ls_text and out = "ustr ''Stopping as requested.''"])
    show "iteration a1 < max_iterations a1"
      by (simp add: a1_def a0_def init_automation_def)
    show "chat two_turn_env w2 (context a1) = Some ls_text"
      by (simp add: w2 w1_def)
    show "ls_text \<noteq> []"
      by (simp add: ls_text_def)
    show "execute_ai_command two_turn_env ls_text (w2\<lparr>prompts := prompts w2 @ [context a1]\<rparr>) =
      (Some (ustr ''Stopping as requested.''),
       (w2\<lparr>prompts := prompts w2 @ [context a1]\<rparr>)
         \<lparr>files := (files (w2\<lparr>prompts := prompts w2 @ [context a1]\<rparr>))
                    (ustr ''command_outputs/'' @ ustr ''output.txt'' \<mapsto> ustr ''done''),
          spawned := spawned (w2\<lparr>prompts := prompts w2 @ [context a1]\<rparr>)
                     @ [Exec [ustr ''ls'', ustr ''-la''] None]\<rparr>)"
      by (rule ls_turn_executes)
    show "oracle_says_stop two_turn_env ls_text"
      by (simp add: oracle_says_stop_def clean_ls loads_ls ls_json_def)
  qed
  have first: "fst (run_command two_turn_env (ustr ''sleep 400'')
                      (ustr ''command_outputs/'' @ ustr ''output.txt'') None w1) = False"
    by (simp add: sleep_turn_fails)
  note res = run [unfolded turn1 turn2]
  show ?thesis
    unfolding res using first
    by (simp add: w2 w1_def a1_def a0_def init_automation_def empty_world_def ctx0_def)
qed

end
